theory Spec2Isabelle
  imports Main
begin

unbundle bit_operations_syntax

section \<open>JavaScript values\<close>

text \<open>
  The values the script handles: what \<^verbatim>\<open>JSON.parse\<close> can return, plus
  \<^verbatim>\<open>undefined\<close> for a missing property. An object lists each of its properties
  once. Strings are lists of 8-bit characters, a character standing for the code unit of
  the same number. A stored number is only ever tested for being zero, so it is
  an integer here and fractions are left out.
\<close>

datatype jsval =
    Undefined
  | Null
  | Bool bool
  | Num int
  | Str string
  | Arr "jsval list"
  | Obj "(string \<times> jsval) list"

text \<open>ToBoolean, the test behind \<^verbatim>\<open>if (v)\<close>, \<^verbatim>\<open>!v\<close> and \<^verbatim>\<open>v || w\<close>.\<close>

fun truthy :: "jsval \<Rightarrow> bool" where
  "truthy Undefined = False"
| "truthy Null = False"
| "truthy (Bool b) = b"
| "truthy (Num n) = (n \<noteq> 0)"
| "truthy (Str s) = (s \<noteq> [])"
| "truthy (Arr xs) = True"
| "truthy (Obj fs) = True"

text \<open>
  \<^verbatim>\<open>v?.p\<close>: \<^verbatim>\<open>undefined\<close> on \<^verbatim>\<open>null\<close> and \<^verbatim>\<open>undefined\<close>, the own
  property on an object, and \<^verbatim>\<open>undefined\<close> where there is none (the script
  reads no property that a primitive or an array inherits).
\<close>

fun optProp :: "jsval \<Rightarrow> string \<Rightarrow> jsval" where
  "optProp (Obj fs) p = (case map_of fs p of Some v \<Rightarrow> v | None \<Rightarrow> Undefined)"
| "optProp v p = Undefined"

text \<open>\<^verbatim>\<open>v || null\<close>, on a value and on the converter's result.\<close>

definition orNull :: "jsval \<Rightarrow> jsval" where
  "orNull v = (if truthy v then v else Null)"

definition convertedOrNull :: "string option \<Rightarrow> string option" where
  "convertedOrNull converted =
     (case converted of Some s \<Rightarrow> (if s = [] then None else Some s) | None \<Rightarrow> None)"

section \<open>The built-ins the converter calls\<close>

text \<open>\<^verbatim>\<open>s.split(',')\<close>: the pieces between the commas; one piece more than commas.\<close>

fun split :: "char \<Rightarrow> string \<Rightarrow> string list" where
  "split sep [] = [[]]"
| "split sep (c # cs) =
     (if c = sep then [] # split sep cs
      else (case split sep cs of
              p # ps \<Rightarrow> (c # p) # ps
            | [] \<Rightarrow> [[c]]))"

text \<open>
  The numbers of the script are the doubles that \<^verbatim>\<open>parseInt\<close> returns:
  \<^verbatim>\<open>NaN\<close>, an infinity, or a double whose value is an integer. Minus zero is not
  told apart from zero: \<^verbatim>\<open>&\<close>, the comparisons and \<^verbatim>\<open>String\<close> treat both alike.
\<close>

datatype number = NaN | NegInf | Fin int | PosInf

text \<open>
  The double nearest to an integer, ties to the even significand: below \<open>2 ^ 53\<close> in
  magnitude the integer itself, above it the integer rounded to 53 significant bits, and
  an infinity from \<open>2 ^ 1024\<close> on.
\<close>

function bitLength :: "int \<Rightarrow> nat" where
  "bitLength n = (if n \<le> 0 then 0 else Suc (bitLength (n div 2)))"
  by pat_completeness auto
termination
  by (relation "measure nat") auto

definition roundToDouble :: "int \<Rightarrow> number" where
  "roundToDouble n =
     (let a = \<bar>n\<bar> in
      if a < 2 ^ 53 then Fin n
      else
        let e = bitLength a - 53;
            q = a div 2 ^ e;
            r = a mod 2 ^ e;
            q' = (if 2 ^ (e - 1) < r \<or> (r = 2 ^ (e - 1) \<and> odd q) then q + 1 else q);
            v = q' * 2 ^ e
        in if 2 ^ 1024 \<le> v then (if n < 0 then NegInf else PosInf)
           else Fin (if n < 0 then - v else v))"

text \<open>
  \<^verbatim>\<open>parseInt(s, 10)\<close>: skip leading white space, read one optional sign, take the
  longest run of decimal digits; no digit gives \<^verbatim>\<open>NaN\<close>, whatever follows the digits
  is ignored. The digits are read exactly and the integer is then rounded to a double (the
  standard lets an engine drop the digits after the twentieth; the common engines do not).
\<close>

definition isWhiteSpace :: "char \<Rightarrow> bool" where
  "isWhiteSpace c \<longleftrightarrow> (of_char c :: nat) \<in> {9, 10, 11, 12, 13, 32, 160}"

definition isDigit :: "char \<Rightarrow> bool" where
  "isDigit c \<longleftrightarrow> 48 \<le> (of_char c :: nat) \<and> (of_char c :: nat) \<le> 57"

definition digitsValue :: "string \<Rightarrow> int" where
  "digitsValue ds = foldl (\<lambda>acc c. 10 * acc + (of_char c - 48)) 0 ds"

definition parseInt :: "string \<Rightarrow> number" where
  "parseInt inputString =
     (let S = dropWhile isWhiteSpace inputString;
          sign = (if S \<noteq> [] \<and> hd S = CHR ''-'' then - 1 else 1 :: int);
          S' = (if S \<noteq> [] \<and> (hd S = CHR ''+'' \<or> hd S = CHR ''-'') then tl S else S);
          Z = takeWhile isDigit S'
      in if Z = [] then NaN else roundToDouble (sign * digitsValue Z))"

definition isNaN :: "number \<Rightarrow> bool" where
  "isNaN x \<longleftrightarrow> x = NaN"

text \<open>
  \<^verbatim>\<open>x & c\<close> first takes \<^verbatim>\<open>x\<close> to a signed 32-bit integer: \<^verbatim>\<open>NaN\<close> and the
  infinities to 0, an integer to itself modulo \<open>2 ^ 32\<close>.
\<close>

definition toInt32 :: "number \<Rightarrow> int" where
  "toInt32 x = (case x of Fin n \<Rightarrow> signed_take_bit 31 n | _ \<Rightarrow> 0)"

text \<open>\<^verbatim>\<open>x >= c\<close> and \<^verbatim>\<open>x <= c\<close> for an integer \<open>c\<close>.\<close>

definition numGe :: "number \<Rightarrow> int \<Rightarrow> bool" where
  "numGe x c = (case x of NaN \<Rightarrow> False | NegInf \<Rightarrow> False | Fin n \<Rightarrow> c \<le> n | PosInf \<Rightarrow> True)"

definition numLe :: "number \<Rightarrow> int \<Rightarrow> bool" where
  "numLe x c = (case x of NaN \<Rightarrow> False | NegInf \<Rightarrow> True | Fin n \<Rightarrow> n \<le> c | PosInf \<Rightarrow> False)"

text \<open>The decimal digits of an integer that is not negative.\<close>

function digitsOf :: "int \<Rightarrow> string" where
  "digitsOf n =
     (if n < 10 then [char_of (48 + n)]
      else digitsOf (n div 10) @ [char_of (48 + n mod 10)])"
  by pat_completeness auto
termination
  by (relation "measure nat") auto

text \<open>
  \<^verbatim>\<open>String(x)\<close>. For a positive double the standard asks for the fewest digits that,
  followed by zeros, read back as the same double, and among those for the value nearest
  to it. \<open>shortestDecimal x j\<close> tries the multiples of \<open>10 ^ j\<close> just below and just
  above \<open>x\<close>, for \<open>j\<close> going down from one less than the number of digits of \<open>x\<close>;
  at \<open>j = 0\<close> it is \<open>x\<close> itself. Below \<open>10 ^ 21\<close> these digits and zeros are
  printed in full, from there on in exponent notation.
\<close>

fun shortestDecimal :: "int \<Rightarrow> nat \<Rightarrow> int" where
  "shortestDecimal x j =
     (let lo = (x div 10 ^ j) * 10 ^ j;
          hi = lo + 10 ^ j;
          okLo = (roundToDouble lo = Fin x);
          okHi = (roundToDouble hi = Fin x)
      in if okLo \<and> okHi
         then (if x - lo < hi - x then lo
               else if hi - x < x - lo then hi
               else if even (x div 10 ^ j) then lo else hi)
         else if okLo then lo
         else if okHi then hi
         else (case j of 0 \<Rightarrow> x | Suc j' \<Rightarrow> shortestDecimal x j'))"

definition stripZeros :: "string \<Rightarrow> string" where
  "stripZeros ds = rev (dropWhile (\<lambda>c. c = CHR ''0'') (rev ds))"

definition positiveToString :: "int \<Rightarrow> string" where
  "positiveToString x =
     (let v = shortestDecimal x (length (digitsOf x) - 1);
          ds = digitsOf v
      in if v < 10 ^ 21 then ds
         else
           let s = stripZeros ds;
               e = digitsOf (int (length ds) - 1)
           in if length s = 1 then s @ ''e+'' @ e
              else hd s # ''.'' @ tl s @ ''e+'' @ e)"

definition numberToString :: "number \<Rightarrow> string" where
  "numberToString x =
     (case x of
        NaN \<Rightarrow> ''NaN''
      | PosInf \<Rightarrow> ''Infinity''
      | NegInf \<Rightarrow> ''-Infinity''
      | Fin n \<Rightarrow>
          (if n = 0 then ''0''
           else if n < 0 then CHR ''-'' # positiveToString (- n)
           else positiveToString n))"

text \<open>
  \<^verbatim>\<open>String.fromCharCode(x)\<close>, and \<^verbatim>\<open>toLowerCase()\<close> on the characters of the
  model (the capital letters of ASCII and of Latin-1 move up by 32).
\<close>

definition fromCharCode :: "number \<Rightarrow> string" where
  "fromCharCode x = (case x of Fin n \<Rightarrow> [char_of n] | _ \<Rightarrow> [char_of (0 :: int)])"

definition lowerChar :: "char \<Rightarrow> char" where
  "lowerChar c =
     (let u = (of_char c :: nat)
      in if (65 \<le> u \<and> u \<le> 90) \<or> (192 \<le> u \<and> u \<le> 222 \<and> u \<noteq> 215) then char_of (u + 32) else c)"

definition toLowerCase :: "string \<Rightarrow> string" where
  "toLowerCase s = map lowerChar s"

section \<open>The converter\<close>

text \<open>
  \<^verbatim>\<open>convertNumericShortcutToString\<close>. The result \<^verbatim>\<open>null\<close> is \<open>None\<close>. No call
  in the body can throw on the arguments it gets, so there is no exceptional outcome
  to model.
\<close>

definition convertNumericShortcutToString :: "jsval \<Rightarrow> string option" where
  "convertNumericShortcutToString numericFormat =
     (case numericFormat of
        Str s \<Rightarrow>
          if s = [] then None
          else
            let parts = split CHR '','' s in
            if length parts \<noteq> 2 then None
            else
              let modifierBitmask = parseInt (parts ! 0);
                  keyCode = parseInt (parts ! 1)
              in if isNaN modifierBitmask \<or> isNaN keyCode then None
                 else
                   let modifiers =
                         (if toInt32 modifierBitmask AND 1 \<noteq> 0 then ''S'' else [])
                         @ (if toInt32 modifierBitmask AND 2 \<noteq> 0 then ''C'' else [])
                         @ (if toInt32 modifierBitmask AND 4 \<noteq> 0 then ''A'' else []);
                       keyRepresentation =
                         (if numGe keyCode 48 \<and> numLe keyCode 57 then fromCharCode keyCode
                          else if numGe keyCode 65 \<and> numLe keyCode 90
                               then toLowerCase (fromCharCode keyCode)
                          else numberToString keyCode)
                   in if modifiers \<noteq> [] then Some (modifiers @ ''+'' @ keyRepresentation)
                      else Some keyRepresentation
      | _ \<Rightarrow> None)"

section \<open>The host registry and the browser storage\<close>

text \<open>
  What \<^verbatim>\<open>getAllShortcuts\<close> lists for one shortcut. The callback is left out: it is
  never read back, saved or compared.
\<close>

record shortcut =
  shortcutId :: string
  name :: string
  description :: string
  shortcutKeys :: "string option"

text \<open>
  One stored text, by what \<^verbatim>\<open>JSON.parse\<close> makes of it: \<open>Unreadable\<close> is a
  text that is empty or that \<^verbatim>\<open>JSON.parse\<close> rejects, \<open>Text v\<close> one that it reads
  as \<open>v\<close>. \<^verbatim>\<open>JSON.stringify\<close> of a value \<open>v\<close> without \<^verbatim>\<open>undefined\<close> is
  such a text for \<open>v\<close>.
\<close>

datatype stored = Unreadable | Text jsval

record world =
  localStorage :: "string \<rightharpoonup> stored"
  shortcuts :: "shortcut list"

datatype sdk_error = ShortcutNotFound | ShortcutExists

text \<open>
  Modelled from the spec: the host SDK is not part of the repository. Section 6 gives
  its three calls: \<^verbatim>\<open>queryAllShortcuts\<close> lists the registrations,
  \<^verbatim>\<open>deregisterShortcut\<close> throws if the id is unknown, \<^verbatim>\<open>registerShortcut\<close>
  may throw. Here it throws when the id is already registered, and a registration keeps
  the chord it was given (how the host re-encodes a chord is not modelled). The storage
  calls and \<^verbatim>\<open>getAllShortcuts\<close> are taken not to throw.
\<close>

definition getAllShortcuts :: "world \<Rightarrow> shortcut list" where
  "getAllShortcuts w = shortcuts w"

definition deleteShortcut :: "string \<Rightarrow> shortcut list \<Rightarrow> sdk_error + shortcut list" where
  "deleteShortcut sid r =
     (if list_ex (\<lambda>s. shortcutId s = sid) r
      then Inr (filter (\<lambda>s. shortcutId s \<noteq> sid) r)
      else Inl ShortcutNotFound)"

definition createShortcut :: "shortcut \<Rightarrow> shortcut list \<Rightarrow> sdk_error + shortcut list" where
  "createShortcut s r =
     (if list_ex (\<lambda>t. shortcutId t = shortcutId s) r
      then Inl ShortcutExists
      else Inr (r @ [s]))"

text \<open>\<^verbatim>\<open>allShortcuts.find(s => s.shortcutId === shortcutId)\<close>\<close>

definition findShortcut :: "string \<Rightarrow> world \<Rightarrow> shortcut option" where
  "findShortcut sid w = List.find (\<lambda>s. shortcutId s = sid) (getAllShortcuts w)"

section \<open>The shortcut lifecycle\<close>

text \<open>
  The four \<^verbatim>\<open>initializeShortcutN\<close> functions are one text with different
  constants; a \<open>demoAction\<close> holds the constants of one of them. Demo Actions 1 and 4
  declare no \<^verbatim>\<open>HARDCODED_DEFAULT\<close> and start from \<^verbatim>\<open>null\<close>.
\<close>

record demoAction =
  the_shortcutId :: string
  storageKey :: string
  the_name :: string
  the_description :: string
  HARDCODED_DEFAULT :: "string option"

definition Action1 :: demoAction where
  "Action1 = \<lparr>the_shortcutId = ''WMEShortcutDemo_Action1'',
     storageKey = ''WMEShortcutDemo_Action1_Config'',
     the_name = ''Demo Action 1'',
     the_description = ''USER CUSTOMIZABLE - Assign keys, then run: window.saveDemoShortcut1() in console'',
     HARDCODED_DEFAULT = None\<rparr>"

definition Action2 :: demoAction where
  "Action2 = \<lparr>the_shortcutId = ''WMEShortcutDemo_Action2'',
     storageKey = ''WMEShortcutDemo_Action2_Config'',
     the_name = ''Demo Action 2'',
     the_description = ''HARDCODED DEFAULT (A+2) + AUTO-SAVE - Change keys, auto-saves every 2 seconds!'',
     HARDCODED_DEFAULT = Some ''A+2''\<rparr>"

definition Action3 :: demoAction where
  "Action3 = \<lparr>the_shortcutId = ''WMEShortcutDemo_Action3'',
     storageKey = ''WMEShortcutDemo_Action3_Config'',
     the_name = ''Demo Action 3'',
     the_description = ''HARDCODED DEFAULT (A+9) - Change keys, then run: window.saveDemoShortcut3() or reset: window.resetDemoShortcut3()'',
     HARDCODED_DEFAULT = Some ''A+9''\<rparr>"

definition Action4 :: demoAction where
  "Action4 = \<lparr>the_shortcutId = ''WMEShortcutDemo_Action4'',
     storageKey = ''WMEShortcutDemo_Action4_Config'',
     the_name = ''Demo Action 4'',
     the_description = ''AUTO-SAVE - Assign keys, automatically saved every 2 seconds!'',
     HARDCODED_DEFAULT = None\<rparr>"

subsection \<open>Startup\<close>

text \<open>
  Step 1: \<^verbatim>\<open>savedConfig\<close> stays \<^verbatim>\<open>null\<close> when the key is absent, the text is
  empty, or \<^verbatim>\<open>JSON.parse\<close> throws (the exception is caught and logged).
\<close>

definition loadSavedConfig :: "demoAction \<Rightarrow> world \<Rightarrow> jsval" where
  "loadSavedConfig i w =
     (case localStorage w (storageKey i) of
        None \<Rightarrow> Null
      | Some Unreadable \<Rightarrow> Null
      | Some (Text v) \<Rightarrow> v)"

text \<open>
  Step 2: \<^verbatim>\<open>if (savedConfig?.shortcutKeys)\<close>, delete the registration and swallow
  the exception of an unknown id.
\<close>

definition deleteOldShortcut :: "demoAction \<Rightarrow> jsval \<Rightarrow> world \<Rightarrow> world" where
  "deleteOldShortcut i savedConfig w =
     (if truthy (optProp savedConfig ''shortcutKeys'')
      then (case deleteShortcut (the_shortcutId i) (shortcuts w) of
              Inl e \<Rightarrow> w
            | Inr r \<Rightarrow> w\<lparr>shortcuts := r\<rparr>)
      else w)"

text \<open>Step 3: the saved chord, converted, or else the default.\<close>

definition shortcutKeysToUse :: "demoAction \<Rightarrow> jsval \<Rightarrow> string option" where
  "shortcutKeysToUse i savedConfig =
     (if truthy (optProp savedConfig ''shortcutKeys'')
      then convertedOrNull (convertNumericShortcutToString (optProp savedConfig ''shortcutKeys''))
      else HARDCODED_DEFAULT i)"

text \<open>Step 4: the registration asked for; a failure is logged and leaves the registry as it is.\<close>

definition registration :: "demoAction \<Rightarrow> string option \<Rightarrow> shortcut" where
  "registration i keys =
     \<lparr>shortcutId = the_shortcutId i, name = the_name i,
      description = the_description i, shortcutKeys = keys\<rparr>"

definition tryCreateShortcut :: "shortcut \<Rightarrow> world \<Rightarrow> world" where
  "tryCreateShortcut s w =
     (case createShortcut s (shortcuts w) of
        Inl e \<Rightarrow> w
      | Inr r \<Rightarrow> w\<lparr>shortcuts := r\<rparr>)"

definition initializeShortcut :: "demoAction \<Rightarrow> world \<Rightarrow> world" where
  "initializeShortcut i w =
     (let savedConfig = loadSavedConfig i w;
          w1 = deleteOldShortcut i savedConfig w;
          keys = shortcutKeysToUse i savedConfig
      in tryCreateShortcut (registration i keys) w1)"

text \<open>Step 5 of Demo Actions 2 and 4: \<^verbatim>\<open>lastSavedKeys = savedConfig?.shortcutKeys || null\<close>.\<close>

definition initialLastSavedKeys :: "demoAction \<Rightarrow> world \<Rightarrow> jsval" where
  "initialLastSavedKeys i w = orNull (optProp (loadSavedConfig i w) ''shortcutKeys'')"

definition initializeShortcut1 :: "world \<Rightarrow> world" where
  "initializeShortcut1 w = initializeShortcut Action1 w"

definition initializeShortcut2 :: "world \<Rightarrow> world \<times> jsval" where
  "initializeShortcut2 w = (initializeShortcut Action2 w, initialLastSavedKeys Action2 w)"

definition initializeShortcut3 :: "world \<Rightarrow> world" where
  "initializeShortcut3 w = initializeShortcut Action3 w"

definition initializeShortcut4 :: "world \<Rightarrow> world \<times> jsval" where
  "initializeShortcut4 w = (initializeShortcut Action4 w, initialLastSavedKeys Action4 w)"

subsection \<open>Save, auto-save and reset\<close>

definition keysValue :: "string option \<Rightarrow> jsval" where
  "keysValue keys = (case keys of None \<Rightarrow> Null | Some k \<Rightarrow> Str k)"

definition configToSave :: "shortcut \<Rightarrow> jsval" where
  "configToSave s =
     Obj [(''shortcutId'', Str (shortcutId s)),
          (''name'', Str (name s)),
          (''description'', Str (description s)),
          (''shortcutKeys'', keysValue (shortcutKeys s))]"

text \<open>\<^verbatim>\<open>localStorage.setItem(storageKey, JSON.stringify(configToSave))\<close>\<close>

definition setItem :: "demoAction \<Rightarrow> shortcut \<Rightarrow> world \<Rightarrow> world" where
  "setItem i s w = w\<lparr>localStorage := (localStorage w)(storageKey i \<mapsto> Text (configToSave s))\<rparr>"

text \<open>\<^verbatim>\<open>saveDemoShortcut1\<close>: return if the shortcut is not found, else write.\<close>

definition manualSave :: "demoAction \<Rightarrow> world \<Rightarrow> world" where
  "manualSave i w =
     (case findShortcut (the_shortcutId i) w of
        None \<Rightarrow> w
      | Some s \<Rightarrow> setItem i s w)"

text \<open>
  \<^verbatim>\<open>saveDemoShortcut2\<close> and \<^verbatim>\<open>saveDemoShortcut4\<close>: the same, and
  \<^verbatim>\<open>lastSavedKeys = shortcut.shortcutKeys\<close> after the write.
\<close>

definition manualSaveTracked :: "demoAction \<Rightarrow> world \<times> jsval \<Rightarrow> world \<times> jsval" where
  "manualSaveTracked i st =
     (case findShortcut (the_shortcutId i) (fst st) of
        None \<Rightarrow> st
      | Some s \<Rightarrow> (setItem i s (fst st), keysValue (shortcutKeys s)))"

text \<open>\<^verbatim>\<open>saveDemoShortcut3\<close>: \<^verbatim>\<open>if (!shortcut || !shortcut.shortcutKeys) return\<close>.\<close>

definition overrideSave :: "demoAction \<Rightarrow> world \<Rightarrow> world" where
  "overrideSave i w =
     (case findShortcut (the_shortcutId i) w of
        None \<Rightarrow> w
      | Some s \<Rightarrow> (if \<not> truthy (keysValue (shortcutKeys s)) then w else setItem i s w))"

text \<open>
  One run of the \<^verbatim>\<open>setInterval\<close> callback of Demo Actions 2 and 4, on the storage,
  the registry and the callback's \<^verbatim>\<open>lastSavedKeys\<close>.
\<close>

definition autoSaveTick :: "demoAction \<Rightarrow> world \<times> jsval \<Rightarrow> world \<times> jsval" where
  "autoSaveTick i st =
     (case findShortcut (the_shortcutId i) (fst st) of
        None \<Rightarrow> st
      | Some s \<Rightarrow>
          (if truthy (keysValue (shortcutKeys s))
           then (if keysValue (shortcutKeys s) \<noteq> snd st
                 then (setItem i s (fst st), keysValue (shortcutKeys s))
                 else st)
           else st))"

text \<open>\<^verbatim>\<open>localStorage.removeItem(storageKey)\<close>\<close>

definition reset :: "demoAction \<Rightarrow> world \<Rightarrow> world" where
  "reset i w = w\<lparr>localStorage := (localStorage w)(storageKey i := None)\<rparr>"

definition saveDemoShortcut1 :: "world \<Rightarrow> world" where
  "saveDemoShortcut1 w = manualSave Action1 w"

definition saveDemoShortcut2 :: "world \<times> jsval \<Rightarrow> world \<times> jsval" where
  "saveDemoShortcut2 st = manualSaveTracked Action2 st"

definition saveDemoShortcut3 :: "world \<Rightarrow> world" where
  "saveDemoShortcut3 w = overrideSave Action3 w"

definition saveDemoShortcut4 :: "world \<times> jsval \<Rightarrow> world \<times> jsval" where
  "saveDemoShortcut4 st = manualSaveTracked Action4 st"

definition autoSave2 :: "world \<times> jsval \<Rightarrow> world \<times> jsval" where
  "autoSave2 st = autoSaveTick Action2 st"

definition autoSave4 :: "world \<times> jsval \<Rightarrow> world \<times> jsval" where
  "autoSave4 st = autoSaveTick Action4 st"

definition resetDemoShortcut1 :: "world \<Rightarrow> world" where
  "resetDemoShortcut1 w = reset Action1 w"

definition resetDemoShortcut2 :: "world \<Rightarrow> world" where
  "resetDemoShortcut2 w = reset Action2 w"

definition resetDemoShortcut3 :: "world \<Rightarrow> world" where
  "resetDemoShortcut3 w = reset Action3 w"

definition resetDemoShortcut4 :: "world \<Rightarrow> world" where
  "resetDemoShortcut4 w = reset Action4 w"

section \<open>Reading the specification\<close>

text \<open>
  The decimal string of an integer, as the claims write a mask \<open>m\<close> and a key code
  \<open>k\<close> into the string \<open>m,k\<close>: all of its digits, after a minus sign if negative.
\<close>

definition decimal :: "int \<Rightarrow> string" where
  "decimal n = (if n < 0 then CHR ''-'' # digitsOf (- n) else digitsOf n)"

text \<open>
  The specification's "string of exactly two comma-separated integer-parsable tokens",
  written without the converter's own \<open>split\<close> and \<open>parseInt\<close>: the string has one
  comma, and each side of it starts, after white space and at most one sign, with a
  decimal digit.
\<close>

definition integerParsable :: "string \<Rightarrow> bool" where
  "integerParsable t =
     (case dropWhile isWhiteSpace t of
        [] \<Rightarrow> False
      | c # r \<Rightarrow>
          (if c = CHR ''+'' \<or> c = CHR ''-''
           then (case r of [] \<Rightarrow> False | d # r' \<Rightarrow> isDigit d)
           else isDigit c))"

definition twoIntegerTokens :: "string \<Rightarrow> bool" where
  "twoIntegerTokens s \<longleftrightarrow>
     count_list s CHR '','' = 1
     \<and> integerParsable (takeWhile (\<lambda>c. c \<noteq> CHR '','') s)
     \<and> integerParsable (tl (dropWhile (\<lambda>c. c \<noteq> CHR '','') s))"

text \<open>
  No registered chord is the empty string. The script registers a converted chord, a
  hardcoded default or no chord, and the host reports a chord as mask and key code or as
  none: no state of the page has an empty chord in the registry.
\<close>

definition chordsOK :: "world \<Rightarrow> bool" where
  "chordsOK w = list_all (\<lambda>s. shortcutKeys s \<noteq> Some []) (shortcuts w)"

text \<open>A record is stored under the key and its \<^verbatim>\<open>shortcutKeys\<close> is \<^verbatim>\<open>null\<close>.\<close>

definition nullKeysStored :: "world \<Rightarrow> string \<Rightarrow> bool" where
  "nullKeysStored w k =
     (case localStorage w k of
        Some (Text v) \<Rightarrow> optProp v ''shortcutKeys'' = Null
      | _ \<Rightarrow> False)"

subsection \<open>States used as examples\<close>

text \<open>Nothing stored, nothing registered.\<close>

definition freshWorld :: world where
  "freshWorld = \<lparr>localStorage = Map.empty, shortcuts = []\<rparr>"

text \<open>Nothing stored; the action is registered with the chord \<open>keys\<close>.\<close>

definition liveWorld :: "demoAction \<Rightarrow> string option \<Rightarrow> world" where
  "liveWorld i keys = \<lparr>localStorage = Map.empty, shortcuts = [registration i keys]\<rparr>"

text \<open>Nothing registered; the action's record is stored, with \<open>keys\<close> as its \<^verbatim>\<open>shortcutKeys\<close>.\<close>

definition storedWorld :: "demoAction \<Rightarrow> jsval \<Rightarrow> world" where
  "storedWorld i keys =
     \<lparr>localStorage =
        [storageKey i \<mapsto>
           Text (Obj [(''shortcutId'', Str (the_shortcutId i)),
                      (''name'', Str (the_name i)),
                      (''description'', Str (the_description i)),
                      (''shortcutKeys'', keys)])],
      shortcuts = []\<rparr>"

section \<open>Facts about the built-ins\<close>

declare digitsOf.simps [simp del]

declare bitLength.simps [simp del]

declare shortestDecimal.simps [simp del]

lemma and_bit_odd:
  assumes "k < 31"
  shows "toInt32 (Fin m) AND 2 ^ k \<noteq> 0 \<longleftrightarrow> odd (m div 2 ^ k)"
proof -
  have "toInt32 (Fin m) AND 2 ^ k \<noteq> 0 \<longleftrightarrow> bit (signed_take_bit 31 m) k"
    using and_exp_eq_0_iff_not_bit [of "signed_take_bit 31 m" k] by (simp add: toInt32_def)
  also have "\<dots> \<longleftrightarrow> bit m k"
    using assms by (simp add: bit_signed_take_bit_iff min_def)
  also have "\<dots> \<longleftrightarrow> odd (m div 2 ^ k)"
    by (simp add: bit_iff_odd)
  finally show ?thesis .
qed

lemma and_1_odd: "toInt32 (Fin m) AND 1 \<noteq> 0 \<longleftrightarrow> odd m"
  using and_bit_odd [of 0 m] by simp

lemma and_2_odd: "toInt32 (Fin m) AND 2 \<noteq> 0 \<longleftrightarrow> odd (m div 2)"
  using and_bit_odd [of 1 m] by simp

lemma and_4_odd: "toInt32 (Fin m) AND 4 \<noteq> 0 \<longleftrightarrow> odd (m div 4)"
  using and_bit_odd [of 2 m] by simp

subsection \<open>Rounding to a double\<close>

lemma roundToDouble_safe: "\<bar>n\<bar> < 2 ^ 53 \<Longrightarrow> roundToDouble n = Fin n"
  by (simp add: roundToDouble_def)

lemma roundToDouble_not_NaN: "roundToDouble n \<noteq> NaN"
  by (simp add: roundToDouble_def Let_def)

lemma bitLength_bounds: "0 < a \<Longrightarrow> 2 ^ bitLength a \<le> 2 * a \<and> a < 2 ^ bitLength a"
proof (induction a rule: bitLength.induct)
  case (1 n)
  show ?case
  proof (cases "n = 1")
    case True
    have "bitLength (1 :: int) = Suc (bitLength 0)" by (subst bitLength.simps) simp
    also have "bitLength (0 :: int) = 0" by (subst bitLength.simps) simp
    finally show ?thesis using True by simp
  next
    case False
    with "1.prems" have pos: "0 < n div 2" by simp
    with "1.IH" "1.prems" have ih: "2 ^ bitLength (n div 2) \<le> 2 * (n div 2)"
      "n div 2 < 2 ^ bitLength (n div 2)" by simp_all
    have bl: "bitLength n = Suc (bitLength (n div 2))"
      using "1.prems" by (subst bitLength.simps) simp
    have "2 * (n div 2) \<le> n" by simp
    moreover have "n < 2 * (n div 2) + 2" by linarith
    ultimately show ?thesis using ih by (simp add: bl)
  qed
qed

lemma roundToDouble_large:
  assumes "2 ^ 53 \<le> a"
  shows "roundToDouble a = PosInf \<or> (\<exists>v. roundToDouble a = Fin v \<and> 2 ^ 53 \<le> v)"
proof -
  have "(0 :: int) < 2 ^ 53" by simp
  with assms have pos: "0 < a" by linarith
  define L where "L = bitLength a"
  define e where "e = L - 53"
  from bitLength_bounds [OF pos] have lo: "2 ^ L \<le> 2 * a" and up: "a < 2 ^ L"
    by (simp_all add: L_def)
  from assms up have h: "(2 :: int) ^ 53 < 2 ^ L" by simp
  have L: "53 < L" by (rule power_less_imp_less_exp [OF _ h]) simp
  then have e: "1 \<le> e" and Le: "L = Suc (e + 52)" by (simp_all add: e_def)
  from lo have "(2 :: int) ^ 52 * 2 ^ e \<le> a" by (simp add: Le power_add)
  then have "(2 ^ 52 * 2 ^ e) div 2 ^ e \<le> a div (2 ^ e :: int)"
    by (intro zdiv_mono1) simp_all
  then have q: "(2 :: int) ^ 52 \<le> a div 2 ^ e" by simp
  define q' where "q' = (if 2 ^ (e - 1) < a mod 2 ^ e \<or> (a mod 2 ^ e = 2 ^ (e - 1) \<and> odd (a div 2 ^ e))
      then a div 2 ^ e + 1 else a div 2 ^ e)"
  from q have q': "(2 :: int) ^ 52 \<le> q'" by (simp add: q'_def)
  from e have "(2 :: int) ^ 1 \<le> 2 ^ e" by (intro power_increasing) simp_all
  then have "(2 :: int) ^ 52 * 2 \<le> q' * 2 ^ e"
    using q' by (intro mult_mono) simp_all
  then have v: "(2 :: int) ^ 53 \<le> q' * 2 ^ e" by simp
  have "roundToDouble a = (if 2 ^ 1024 \<le> q' * 2 ^ e then PosInf else Fin (q' * 2 ^ e))"
    using assms pos by (simp add: roundToDouble_def Let_def q'_def e_def L_def)
  with v show ?thesis by auto
qed

subsection \<open>Printing a number and reading it back\<close>

lemma digitsOf_ne: "digitsOf n \<noteq> []"
  by (subst digitsOf.simps) simp

lemma digit_code:
  assumes "0 \<le> d" and "d < 10"
  shows "(of_char (char_of (48 + d :: int)) :: nat) = 48 + nat d"
proof -
  define n where "n = nat d"
  with assms have d: "d = int n" and n: "n < 10" by auto
  have "char_of (48 + d) = char_of (int (48 + n))" by (simp add: d)
  also have "\<dots> = char_of (48 + n)" by (rule char_of_nat)
  finally have "(of_char (char_of (48 + d)) :: nat) = (48 + n) mod 256" by simp
  with n show ?thesis by (simp add: n_def)
qed

lemma digit_isDigit: "0 \<le> d \<Longrightarrow> d < 10 \<Longrightarrow> isDigit (char_of (48 + d :: int))"
  by (simp add: isDigit_def digit_code)

lemma digit_value: "0 \<le> d \<Longrightarrow> d < 10 \<Longrightarrow> (of_char (char_of (48 + d :: int)) :: int) - 48 = d"
  using digit_code [of d] of_nat_of_char [of "char_of (48 + d)", where ?'a = int] by simp

lemma digitsOf_digits: "0 \<le> n \<Longrightarrow> c \<in> set (digitsOf n) \<Longrightarrow> isDigit c"
proof (induction n arbitrary: c rule: digitsOf.induct)
  case (1 n)
  show ?case
  proof (cases "n < 10")
    case True
    with "1.prems"(2) have "c = char_of (48 + n)"
      by (subst (asm) digitsOf.simps) simp
    with True "1.prems"(1) show ?thesis by (simp add: digit_isDigit)
  next
    case False
    have m: "0 \<le> n mod 10" "n mod 10 < 10" by simp_all
    from False "1.prems"(2) have "c \<in> set (digitsOf (n div 10)) \<or> c = char_of (48 + n mod 10)"
      by (subst (asm) digitsOf.simps) auto
    then show ?thesis
    proof
      assume "c \<in> set (digitsOf (n div 10))"
      with False "1.IH" "1.prems" show ?thesis by simp
    next
      assume "c = char_of (48 + n mod 10)"
      with m show ?thesis by (simp add: digit_isDigit)
    qed
  qed
qed

lemma digitsValue_snoc: "digitsValue (ds @ [c]) = 10 * digitsValue ds + (of_char c - 48)"
  by (simp add: digitsValue_def)

lemma digitsValue_digitsOf: "0 \<le> n \<Longrightarrow> digitsValue (digitsOf n) = n"
proof (induction n rule: digitsOf.induct)
  case (1 n)
  show ?case
  proof (cases "n < 10")
    case True
    with "1.prems" have "(of_char (char_of (48 + n)) :: int) - 48 = n" by (simp add: digit_value)
    with True show ?thesis
      by (subst digitsOf.simps) (simp add: digitsValue_def)
  next
    case False
    have m: "(of_char (char_of (48 + n mod 10)) :: int) - 48 = n mod 10"
      by (rule digit_value) simp_all
    from False "1.IH" "1.prems" have ih: "digitsValue (digitsOf (n div 10)) = n div 10" by simp
    from False have "digitsValue (digitsOf n)
        = 10 * (n div 10) + (of_char (char_of (48 + n mod 10)) - 48)"
      by (subst digitsOf.simps) (simp add: digitsValue_snoc ih)
    also have "\<dots> = 10 * (n div 10) + n mod 10"
      using m by simp
    finally show ?thesis by simp
  qed
qed

lemma isDigit_not_ws: "isDigit c \<Longrightarrow> \<not> isWhiteSpace c"
  by (auto simp: isDigit_def isWhiteSpace_def)

lemma isDigit_not_sign: "isDigit c \<Longrightarrow> c \<noteq> CHR ''-'' \<and> c \<noteq> CHR ''+'' \<and> c \<noteq> CHR '',''"
  by (auto simp: isDigit_def)

lemma parseInt_digits_then:
  assumes "ds \<noteq> []" "\<And>c. c \<in> set ds \<Longrightarrow> isDigit c" "rest = [] \<or> \<not> isDigit (hd rest)"
  shows "parseInt (ds @ rest) = roundToDouble (digitsValue ds)"
proof -
  from assms obtain d r where ds: "ds = d # r" by (cases ds) auto
  with assms(2) have d: "isDigit d" by simp
  have "takeWhile isDigit rest = []" using assms(3) by (cases rest) auto
  then have tw: "takeWhile isDigit (ds @ rest) = ds"
    using assms(2) by (simp add: takeWhile_append2)
  have dw: "dropWhile isWhiteSpace (ds @ rest) = ds @ rest"
    using d ds by (simp add: isDigit_not_ws)
  have hd: "hd ds \<noteq> CHR ''-''" "hd ds \<noteq> CHR ''+''"
    using d ds isDigit_not_sign by auto
  show ?thesis using assms(1) by (simp add: parseInt_def dw hd tw Let_def)
qed

lemma parseInt_minus_digits_then:
  assumes "ds \<noteq> []" "\<And>c. c \<in> set ds \<Longrightarrow> isDigit c" "rest = [] \<or> \<not> isDigit (hd rest)"
  shows "parseInt (CHR ''-'' # ds @ rest) = roundToDouble (- digitsValue ds)"
proof -
  have "takeWhile isDigit rest = []" using assms(3) by (cases rest) auto
  then have tw: "takeWhile isDigit (ds @ rest) = ds"
    using assms(2) by (simp add: takeWhile_append2)
  have ws: "\<not> isWhiteSpace CHR ''-''" by (simp add: isWhiteSpace_def)
  show ?thesis using assms(1) by (simp add: parseInt_def ws tw Let_def)
qed

lemma parseInt_decimal_then:
  assumes "rest = [] \<or> \<not> isDigit (hd rest)"
  shows "parseInt (decimal k @ rest) = roundToDouble k"
proof (cases "k < 0")
  case True
  have dig: "isDigit c" if "c \<in> set (digitsOf (- k))" for c
    using True that by (intro digitsOf_digits [of "- k"]) simp_all
  from parseInt_minus_digits_then [OF digitsOf_ne dig assms] True show ?thesis
    by (simp add: decimal_def digitsValue_digitsOf)
next
  case False
  have dig: "isDigit c" if "c \<in> set (digitsOf k)" for c
    using False that by (intro digitsOf_digits [of k]) simp_all
  from parseInt_digits_then [OF digitsOf_ne dig assms] False show ?thesis
    by (simp add: decimal_def digitsValue_digitsOf)
qed

lemma parseInt_decimal: "parseInt (decimal k) = roundToDouble k"
  using parseInt_decimal_then [of "[]" k] by simp

lemma decimal_no_comma: "CHR '','' \<notin> set (decimal k)"
proof (cases "k < 0")
  case True
  then show ?thesis
    using digitsOf_digits [of "- k" "CHR '',''"] isDigit_not_sign [of "CHR '',''"]
    by (auto simp: decimal_def)
next
  case False
  then show ?thesis
    using digitsOf_digits [of k "CHR '',''"] isDigit_not_sign [of "CHR '',''"]
    by (auto simp: decimal_def)
qed

lemma decimal_ne: "decimal k \<noteq> []"
  by (simp add: decimal_def digitsOf_ne)

lemma parseInt_iff_integerParsable: "parseInt t \<noteq> NaN \<longleftrightarrow> integerParsable t"
proof (cases "dropWhile isWhiteSpace t")
  case Nil
  show ?thesis unfolding parseInt_def integerParsable_def Nil by simp
next
  case (Cons c r)
  show ?thesis
  proof (cases "c = CHR ''+'' \<or> c = CHR ''-''")
    case True
    then show ?thesis
      unfolding parseInt_def integerParsable_def Cons
      by (cases r) (auto simp: Let_def roundToDouble_not_NaN)
  next
    case False
    then show ?thesis
      unfolding parseInt_def integerParsable_def Cons
      by (auto simp: Let_def roundToDouble_not_NaN)
  qed
qed

subsection \<open>The string of a number\<close>

lemma shortestDecimal_step:
  assumes "0 < x" and "x < 2 ^ 53"
  shows "shortestDecimal x j =
    (if (x div 10 ^ j) * 10 ^ j = x then x
     else (case j of 0 \<Rightarrow> x | Suc j' \<Rightarrow> shortestDecimal x j'))"
proof -
  define lo where "lo = (x div 10 ^ j) * 10 ^ j"
  have parts: "x = lo + x mod 10 ^ j"
    unfolding lo_def by (rule div_mult_mod_eq [symmetric])
  have rem: "0 \<le> x mod 10 ^ j" "x mod 10 ^ j < 10 ^ j"
    by (intro pos_mod_sign, simp) (intro pos_mod_bound, simp)
  have lo_le: "lo \<le> x" using parts rem by linarith
  have lo_ge: "0 \<le> lo"
    using assms(1) by (simp add: lo_def pos_imp_zdiv_nonneg_iff)
  have hi_gt: "x < lo + 10 ^ j" using parts rem by linarith
  have okLo: "roundToDouble lo = Fin lo"
    using lo_le lo_ge assms by (simp add: roundToDouble_safe)
  have okHi: "roundToDouble (lo + 10 ^ j) \<noteq> Fin x"
  proof (cases "lo + 10 ^ j < 2 ^ 53")
    case True
    with lo_ge have "roundToDouble (lo + 10 ^ j) = Fin (lo + 10 ^ j)"
      by (intro roundToDouble_safe) simp
    with hi_gt show ?thesis by simp
  next
    case False
    then have "2 ^ 53 \<le> lo + 10 ^ j" by simp
    from roundToDouble_large [OF this] assms show ?thesis by auto
  qed
  have "shortestDecimal x j =
    (if lo = x then lo else (case j of 0 \<Rightarrow> x | Suc j' \<Rightarrow> shortestDecimal x j'))"
    unfolding lo_def
    by (subst shortestDecimal.simps)
      (simp only: Let_def okLo [unfolded lo_def] okHi [unfolded lo_def] number.inject
        simp_thms if_False if_True split: if_splits)
  then show ?thesis by (simp add: lo_def)
qed

lemma shortestDecimal_safe:
  assumes "0 < x" and "x < 2 ^ 53"
  shows "shortestDecimal x j = x"
proof (induction j)
  case 0
  show ?case by (simp add: shortestDecimal_step [OF assms])
next
  case (Suc j)
  then show ?case by (simp add: shortestDecimal_step [OF assms, of "Suc j"] del: power_Suc)
qed

lemma positiveToString_safe:
  assumes "0 < x" and "x < 2 ^ 53"
  shows "positiveToString x = digitsOf x"
proof -
  from assms(2) have "x < 10 ^ 21" by simp
  then show ?thesis
    by (simp add: positiveToString_def shortestDecimal_safe [OF assms] Let_def)
qed

lemma digitsOf_0: "digitsOf 0 = ''0''"
  by code_simp

lemma numberToString_safe: "\<bar>k\<bar> < 2 ^ 53 \<Longrightarrow> numberToString (Fin k) = decimal k"
  by (simp add: numberToString_def decimal_def positiveToString_safe digitsOf_0)

lemma positiveToString_ne: "positiveToString x \<noteq> []"
  by (simp add: positiveToString_def Let_def digitsOf_ne)

lemma numberToString_ne: "numberToString x \<noteq> []"
  by (cases x) (simp_all add: numberToString_def positiveToString_ne)

subsection \<open>Splitting at commas\<close>

lemma split_no_sep: "sep \<notin> set s \<Longrightarrow> split sep s = [s]"
  by (induction s) auto

lemma split_at_sep: "sep \<notin> set a \<Longrightarrow> split sep (a @ sep # b) = a # split sep b"
  by (induction a) auto

lemma split_ne: "split sep s \<noteq> []"
  by (induction s) (auto split: list.splits)

lemma length_split: "length (split sep s) = Suc (count_list s sep)"
proof (induction s)
  case Nil
  show ?case by simp
next
  case (Cons c cs)
  then show ?case
    using split_ne [of sep cs] by (cases "split sep cs") auto
qed

lemma split_one_sep:
  "count_list s sep = 1 \<Longrightarrow>
   split sep s = [takeWhile (\<lambda>c. c \<noteq> sep) s, tl (dropWhile (\<lambda>c. c \<noteq> sep) s)]"
proof (induction s)
  case Nil
  then show ?case by simp
next
  case (Cons c cs)
  show ?case
  proof (cases "c = sep")
    case True
    with Cons.prems have "sep \<notin> set cs" by (simp add: count_list_0_iff)
    with True show ?thesis by (simp add: split_no_sep)
  next
    case False
    with Cons show ?thesis by simp
  qed
qed

lemma split_pair:
  "split CHR '','' (decimal m @ '','' @ decimal k) = [decimal m, decimal k]"
  using split_at_sep [of "CHR '',''" "decimal m" "decimal k"]
  by (simp add: split_no_sep decimal_no_comma)

subsection \<open>The converter on two tokens\<close>

lemma lower_letter:
  assumes "65 \<le> k" and "k \<le> 90"
  shows "toLowerCase (fromCharCode (Fin k)) = [char_of (k + 32)]"
proof -
  define n where "n = nat k"
  with assms have k: "k = int n" and n: "65 \<le> n" "n \<le> 90" by auto
  have c: "char_of k = char_of n" unfolding k by (rule char_of_nat)
  have u: "(of_char (char_of n) :: nat) = n" using n by simp
  have "char_of (k + 32) = char_of (int (n + 32))" unfolding k by simp
  also have "\<dots> = char_of (n + 32)" by (rule char_of_nat)
  finally have r: "char_of (k + 32) = char_of (n + 32)" .
  show ?thesis
    using n by (simp add: toLowerCase_def fromCharCode_def lowerChar_def c u r)
qed

lemma decode_tokens:
  assumes "s \<noteq> []" "split CHR '','' s = [a, b]" "parseInt a \<noteq> NaN" "parseInt b \<noteq> NaN"
  shows "convertNumericShortcutToString (Str s) =
    (let modifiers = (if toInt32 (parseInt a) AND 1 \<noteq> 0 then ''S'' else [])
                     @ (if toInt32 (parseInt a) AND 2 \<noteq> 0 then ''C'' else [])
                     @ (if toInt32 (parseInt a) AND 4 \<noteq> 0 then ''A'' else []);
         keyRepresentation =
           (if numGe (parseInt b) 48 \<and> numLe (parseInt b) 57 then fromCharCode (parseInt b)
            else if numGe (parseInt b) 65 \<and> numLe (parseInt b) 90
                 then toLowerCase (fromCharCode (parseInt b))
            else numberToString (parseInt b))
     in if modifiers \<noteq> [] then Some (modifiers @ ''+'' @ keyRepresentation) else Some keyRepresentation)"
  using assms by (simp add: convertNumericShortcutToString_def isNaN_def Let_def)

lemma decode_NaN:
  assumes "split CHR '','' s = [a, b]" "parseInt a = NaN \<or> parseInt b = NaN"
  shows "convertNumericShortcutToString (Str s) = None"
  using assms by (auto simp: convertNumericShortcutToString_def isNaN_def Let_def)

lemma decode_not_empty: "convertNumericShortcutToString v \<noteq> Some []"
proof (cases v)
  case (Str s)
  show ?thesis
  proof (cases "s \<noteq> [] \<and> length (split CHR '','' s) = 2")
    case False
    then show ?thesis
      using Str by (auto simp: convertNumericShortcutToString_def Let_def)
  next
    case True
    then obtain a b where ab: "split CHR '','' s = [a, b]"
      by (cases "split CHR '','' s"; cases "tl (split CHR '','' s)") auto
    show ?thesis
    proof (cases "parseInt a = NaN \<or> parseInt b = NaN")
      case True
      from decode_NaN [OF ab this] show ?thesis by (simp add: Str)
    next
      case False
      with True have "s \<noteq> []" "parseInt a \<noteq> NaN" "parseInt b \<noteq> NaN" by simp_all
      from decode_tokens [OF this(1) ab this(2,3)] show ?thesis
        unfolding Str
        by (simp add: Let_def fromCharCode_def toLowerCase_def numberToString_ne
            split: number.splits)
    qed
  qed
qed (simp_all add: convertNumericShortcutToString_def)

lemma convertedOrNull_decode:
  "convertedOrNull (convertNumericShortcutToString v) = convertNumericShortcutToString v"
  using decode_not_empty [of v]
  by (cases "convertNumericShortcutToString v") (simp_all add: convertedOrNull_def)

section \<open>The converter\<close>

text \<open>
  C1, as amended. For a modifier mask \<open>m\<close> from 0 to 7 and an integer key code \<open>k\<close>
  of magnitude below \<open>2 ^ 53\<close>, converting the string \<open>m,k\<close> (both in decimal) gives
  the modifier letters, one per mask bit that is set and always in the order S (bit 0),
  C (bit 1), A (bit 2), then a plus sign if there is a letter, then the key: the character
  with code \<open>k\<close> for 48 to 57 (the digits), the character with code \<open>k + 32\<close> for 65
  to 90 (the lower-case letter), and \<open>k\<close> in decimal otherwise. Without a letter the
  result is the key alone.
\<close>

theorem decode_chord:
  assumes "0 \<le> m" and "m \<le> 7" and "\<bar>k\<bar> < 2 ^ 53"
  shows "convertNumericShortcutToString (Str (decimal m @ '','' @ decimal k)) =
    (let prefix = (if odd m then ''S'' else []) @ (if odd (m div 2) then ''C'' else [])
                  @ (if odd (m div 4) then ''A'' else []);
         key = (if 48 \<le> k \<and> k \<le> 57 then [char_of k]
                else if 65 \<le> k \<and> k \<le> 90 then [char_of (k + 32)]
                else decimal k)
     in Some (if prefix = [] then key else prefix @ ''+'' @ key))"
proof -
  have ne: "decimal m @ '','' @ decimal k \<noteq> []" by simp
  from assms(1,2) have "\<bar>m\<bar> < 2 ^ 53" by simp
  then have pm: "parseInt (decimal m) = Fin m"
    by (simp add: parseInt_decimal roundToDouble_safe)
  have pk: "parseInt (decimal k) = Fin k"
    using assms(3) by (simp add: parseInt_decimal roundToDouble_safe)
  have nm: "parseInt (decimal m) \<noteq> NaN" and nk: "parseInt (decimal k) \<noteq> NaN"
    by (simp_all add: pm pk)
  show ?thesis
    unfolding decode_tokens [OF ne split_pair nm nk] pm pk
    using assms(3)
    by (simp add: and_1_odd and_2_odd and_4_odd lower_letter [unfolded fromCharCode_def, simplified]
        numGe_def numLe_def numberToString_safe fromCharCode_def Let_def)
qed

lemma decimal_0: "decimal 0 = ''0''"
  by code_simp

lemma decimal_4: "decimal 4 = ''4''"
  by code_simp

lemma decimal_5: "decimal 5 = ''5''"
  by code_simp

lemma decimal_13: "decimal 13 = ''13''"
  by code_simp

lemma decimal_56: "decimal 56 = ''56''"
  by code_simp

lemma decimal_78: "decimal 78 = ''78''"
  by code_simp

lemma char_56: "char_of (56 :: int) = CHR ''8''"
  by code_simp

lemma char_110: "char_of (110 :: int) = CHR ''n''"
  by code_simp

theorem decode_chord_witness:
  "(0 :: int) \<le> 5 \<and> (5 :: int) \<le> 7 \<and> (0 :: int) \<le> 4 \<and> (4 :: int) \<le> 7
   \<and> (0 :: int) \<le> 0 \<and> (0 :: int) \<le> 7
   \<and> \<bar>78 :: int\<bar> < 2 ^ 53 \<and> \<bar>56 :: int\<bar> < 2 ^ 53 \<and> \<bar>13 :: int\<bar> < 2 ^ 53
   \<and> convertNumericShortcutToString (Str ''5,78'') = Some ''SA+n''
   \<and> convertNumericShortcutToString (Str ''4,56'') = Some ''A+8''
   \<and> convertNumericShortcutToString (Str ''0,13'') = Some ''13''"
proof -
  have h5: "(0 :: int) \<le> 5" "(5 :: int) \<le> 7"
    and h4: "(0 :: int) \<le> 4" "(4 :: int) \<le> 7"
    and h0: "(0 :: int) \<le> 0" "(0 :: int) \<le> 7"
    and k78: "\<bar>78 :: int\<bar> < 2 ^ 53" and k56: "\<bar>56 :: int\<bar> < 2 ^ 53"
    and k13: "\<bar>13 :: int\<bar> < 2 ^ 53"
    by simp_all
  have a: "convertNumericShortcutToString (Str ''5,78'') = Some ''SA+n''"
    using decode_chord [OF h5 k78] unfolding decimal_5 decimal_78
    by (simp add: char_110)
  have b: "convertNumericShortcutToString (Str ''4,56'') = Some ''A+8''"
    using decode_chord [OF h4 k56] unfolding decimal_4 decimal_56
    by (simp add: char_56)
  have c: "convertNumericShortcutToString (Str ''0,13'') = Some ''13''"
    using decode_chord [OF h0 k13] unfolding decimal_0 decimal_13
    by simp
  from a b c show ?thesis by simp
qed

text \<open>
  The claim as it was stated, for every integer key code, fails from \<open>2 ^ 53\<close> on, where
  \<^verbatim>\<open>parseInt\<close> rounds to a double and \<^verbatim>\<open>String\<close> prints the double: the key code
  \<open>2 ^ 53 + 1\<close> comes back as \<open>2 ^ 53\<close>, and \<open>10 ^ 21\<close> in exponent notation.
\<close>

theorem decode_key_code_rounded:
  "decimal 0 @ '','' @ decimal 9007199254740993 = ''0,9007199254740993''
   \<and> convertNumericShortcutToString (Str ''0,9007199254740993'') = Some ''9007199254740992''
   \<and> ''9007199254740992'' \<noteq> decimal 9007199254740993
   \<and> decimal 0 @ '','' @ decimal 1000000000000000000000 = ''0,1000000000000000000000''
   \<and> convertNumericShortcutToString (Str ''0,1000000000000000000000'') = Some ''1e+21''
   \<and> ''1e+21'' \<noteq> decimal 1000000000000000000000"
  by code_simp

text \<open>
  C5, as amended. Converting \<open>2,81\<close> gives \<open>C+q\<close>: the letter C, which the script
  appends for mask value 2 and comments as Ctrl, the plus sign, and the lower-case q.
\<close>

theorem decode_2_81: "convertNumericShortcutToString (Str ''2,81'') = Some ''C+q''"
  by code_simp

text \<open>The claim as it was stated fails: the result does not carry the Shift letter S.\<close>

theorem decode_2_81_no_shift_letter:
  "convertNumericShortcutToString (Str ''2,81'') \<noteq> Some ''S+q''
   \<and> CHR ''S'' \<notin> set (the (convertNumericShortcutToString (Str ''2,81'')))"
  by code_simp


text \<open>
  C10. A token need not be an integer written out: what follows the leading integer of a
  token is ignored. If \<open>junk\<close> holds no comma and does not start with a digit, the
  string \<open>m junk,k\<close> converts to the same chord as \<open>m,k\<close>, and that is a chord, not
  \<^verbatim>\<open>null\<close>.
\<close>

theorem decode_lenient:
  assumes "junk \<noteq> []" and "\<not> isDigit (hd junk)" and "CHR '','' \<notin> set junk"
  shows "convertNumericShortcutToString (Str (decimal m @ junk @ '','' @ decimal k))
           = convertNumericShortcutToString (Str (decimal m @ '','' @ decimal k))
         \<and> convertNumericShortcutToString (Str (decimal m @ junk @ '','' @ decimal k)) \<noteq> None"
proof -
  have nc: "CHR '','' \<notin> set (decimal m @ junk)"
    using assms(3) decimal_no_comma by simp
  have "split CHR '','' ((decimal m @ junk) @ CHR '','' # decimal k)
      = [decimal m @ junk, decimal k]"
    using nc by (simp only: split_at_sep split_no_sep decimal_no_comma not_False_eq_True)
  then have p1: "split CHR '','' (decimal m @ junk @ '','' @ decimal k)
      = [decimal m @ junk, decimal k]"
    by simp
  have i1: "parseInt (decimal m @ junk) = parseInt (decimal m)"
    using assms(2) by (simp add: parseInt_decimal_then parseInt_decimal)
  have nm: "parseInt (decimal m) \<noteq> NaN" and nk: "parseInt (decimal k) \<noteq> NaN"
    by (simp_all add: parseInt_decimal roundToDouble_not_NaN)
  have nj: "parseInt (decimal m @ junk) \<noteq> NaN" by (simp add: i1 nm)
  have n1: "decimal m @ junk @ '','' @ decimal k \<noteq> []" using assms(1) by simp
  have n2: "decimal m @ '','' @ decimal k \<noteq> []" by simp
  have e1: "convertNumericShortcutToString (Str (decimal m @ junk @ '','' @ decimal k)) =
      convertNumericShortcutToString (Str (decimal m @ '','' @ decimal k))"
    unfolding decode_tokens [OF n1 p1 nj nk] decode_tokens [OF n2 split_pair nm nk] i1 ..
  have "convertNumericShortcutToString (Str (decimal m @ '','' @ decimal k)) \<noteq> None"
    unfolding decode_tokens [OF n2 split_pair nm nk]
    by (simp add: Let_def)
  with e1 show ?thesis by simp
qed

lemma decode_4_56: "convertNumericShortcutToString (Str ''4,56'') = Some ''A+8''"
  by code_simp

theorem decode_lenient_witness:
  "''x'' \<noteq> [] \<and> \<not> isDigit (hd ''x'') \<and> CHR '','' \<notin> set ''x''
   \<and> convertNumericShortcutToString (Str ''4x,56'') = Some ''A+8''
   \<and> convertNumericShortcutToString (Str ''4,56'') = Some ''A+8''"
proof -
  have h: "''x'' \<noteq> []" "\<not> isDigit (hd ''x'')" "CHR '','' \<notin> set ''x''"
    by (simp_all add: isDigit_def)
  have "convertNumericShortcutToString (Str ''4x,56'') = convertNumericShortcutToString (Str ''4,56'')
      \<and> convertNumericShortcutToString (Str ''4x,56'') \<noteq> None"
    using decode_lenient [OF h, of 4 56] unfolding decimal_4 decimal_56 append.simps .
  with h decode_4_56 show ?thesis by simp
qed

text \<open>
  C2. The converter is a total function whose only failure value is \<^verbatim>\<open>null\<close>: on
  every input that is not a string of exactly two comma-separated integer-parsable
  tokens (a value that is no string, a wrong number of tokens, a token without a leading
  integer) it returns \<^verbatim>\<open>null\<close>. The inputs \<^verbatim>\<open>null\<close>, the empty string,
  \<open>1,2,3\<close> and \<open>a,b\<close> are such inputs.
\<close>

theorem decode_null_otherwise:
  assumes "\<And>s. numericFormat = Str s \<Longrightarrow> \<not> twoIntegerTokens s"
  shows "convertNumericShortcutToString numericFormat = None"
proof (cases numericFormat)
  case (Str s)
  with assms have no: "\<not> twoIntegerTokens s" by simp
  show ?thesis
  proof (cases "s \<noteq> [] \<and> length (split CHR '','' s) = 2")
    case False
    then show ?thesis
      using Str by (auto simp: convertNumericShortcutToString_def Let_def)
  next
    case True
    then have one: "count_list s CHR '','' = 1" by (simp add: length_split)
    let ?a = "takeWhile (\<lambda>c. c \<noteq> CHR '','') s"
    let ?b = "tl (dropWhile (\<lambda>c. c \<noteq> CHR '','') s)"
    have parts: "split CHR '','' s = [?a, ?b]" using one by (rule split_one_sep)
    from no one have "\<not> integerParsable ?a \<or> \<not> integerParsable ?b"
      by (simp add: twoIntegerTokens_def)
    then have "parseInt ?a = NaN \<or> parseInt ?b = NaN"
      using parseInt_iff_integerParsable by blast
    from decode_NaN [OF parts this] show ?thesis by (simp add: Str)
  qed
qed (simp_all add: convertNumericShortcutToString_def)

theorem decode_null_otherwise_witness:
  "\<not> twoIntegerTokens '''' \<and> \<not> twoIntegerTokens ''1,2,3'' \<and> \<not> twoIntegerTokens ''a,b''
   \<and> convertNumericShortcutToString Null = None
   \<and> convertNumericShortcutToString (Str '''') = None
   \<and> convertNumericShortcutToString (Str ''1,2,3'') = None
   \<and> convertNumericShortcutToString (Str ''a,b'') = None"
proof -
  have h: "\<not> twoIntegerTokens ''''" "\<not> twoIntegerTokens ''1,2,3''" "\<not> twoIntegerTokens ''a,b''"
    by (simp_all add: twoIntegerTokens_def integerParsable_def isWhiteSpace_def isDigit_def)
  have "convertNumericShortcutToString Null = None"
    by (rule decode_null_otherwise) simp
  moreover have "convertNumericShortcutToString (Str '''') = None"
    by (rule decode_null_otherwise) (simp add: h)
  moreover have "convertNumericShortcutToString (Str ''1,2,3'') = None"
    by (rule decode_null_otherwise) (simp add: h)
  moreover have "convertNumericShortcutToString (Str ''a,b'') = None"
    by (rule decode_null_otherwise) (simp add: h)
  ultimately show ?thesis using h by simp
qed

text \<open>The other direction: two integer-parsable tokens always convert to a chord.\<close>

lemma decode_two_tokens:
  assumes "twoIntegerTokens s"
  shows "convertNumericShortcutToString (Str s) \<noteq> None"
proof -
  let ?a = "takeWhile (\<lambda>c. c \<noteq> CHR '','') s"
  let ?b = "tl (dropWhile (\<lambda>c. c \<noteq> CHR '','') s)"
  from assms have one: "count_list s CHR '','' = 1"
    and pa: "integerParsable ?a" and pb: "integerParsable ?b"
    by (simp_all add: twoIntegerTokens_def)
  from one have ne: "s \<noteq> []" by auto
  have parts: "split CHR '','' s = [?a, ?b]" using one by (rule split_one_sep)
  from pa have m: "parseInt ?a \<noteq> NaN"
    using parseInt_iff_integerParsable [of ?a] by simp
  from pb have k: "parseInt ?b \<noteq> NaN"
    using parseInt_iff_integerParsable [of ?b] by simp
  show ?thesis
    unfolding decode_tokens [OF ne parts m k] by (simp add: Let_def)
qed

section \<open>Facts about the lifecycle\<close>

lemma findShortcut_None: "findShortcut sid w = None \<longleftrightarrow> \<not> list_ex (\<lambda>s. shortcutId s = sid) (shortcuts w)"
  by (auto simp: findShortcut_def getAllShortcuts_def find_None_iff list_ex_iff)

lemma findShortcut_storage [simp]: "findShortcut sid (w\<lparr>localStorage := st\<rparr>) = findShortcut sid w"
  by (simp add: findShortcut_def getAllShortcuts_def)

lemma find_after: "List.find P xs = None \<Longrightarrow> List.find P (xs @ ys) = List.find P ys"
  by (induction xs) (auto split: if_splits)

lemma deleteOld_absent:
  "truthy (optProp savedConfig ''shortcutKeys'') \<Longrightarrow>
   findShortcut (the_shortcutId i) (deleteOldShortcut i savedConfig w) = None"
  by (auto simp: deleteOldShortcut_def deleteShortcut_def findShortcut_None list_ex_iff)

lemma deleteOld_still_absent:
  "findShortcut (the_shortcutId i) w = None \<Longrightarrow>
   findShortcut (the_shortcutId i) (deleteOldShortcut i savedConfig w) = None"
  by (auto simp: deleteOldShortcut_def deleteShortcut_def findShortcut_None list_ex_iff)

lemma create_on_absent:
  assumes "findShortcut (shortcutId s) w = None"
  shows "findShortcut (shortcutId s) (tryCreateShortcut s w) = Some s"
proof -
  from assms have "\<not> list_ex (\<lambda>t. shortcutId t = shortcutId s) (shortcuts w)"
    by (simp add: findShortcut_None)
  then have "shortcuts (tryCreateShortcut s w) = shortcuts w @ [s]"
    by (simp add: tryCreateShortcut_def createShortcut_def)
  moreover from assms have "List.find (\<lambda>t. shortcutId t = shortcutId s) (shortcuts w) = None"
    by (simp add: findShortcut_def getAllShortcuts_def)
  ultimately show ?thesis
    by (simp add: findShortcut_def getAllShortcuts_def find_after)
qed

lemma registered_after_startup:
  assumes "truthy (optProp (loadSavedConfig i w) ''shortcutKeys'') \<or> findShortcut (the_shortcutId i) w = None"
  shows "findShortcut (the_shortcutId i) (initializeShortcut i w)
           = Some (registration i (shortcutKeysToUse i (loadSavedConfig i w)))"
proof -
  let ?cfg = "loadSavedConfig i w"
  let ?req = "registration i (shortcutKeysToUse i ?cfg)"
  have id: "shortcutId ?req = the_shortcutId i" by (simp add: registration_def)
  have "findShortcut (the_shortcutId i) (deleteOldShortcut i ?cfg w) = None"
    using assms deleteOld_absent [of ?cfg i w] deleteOld_still_absent [of i w ?cfg] by auto
  then have "findShortcut (shortcutId ?req) (tryCreateShortcut ?req (deleteOldShortcut i ?cfg w)) = Some ?req"
    unfolding id [symmetric] by (rule create_on_absent)
  then show ?thesis by (simp add: initializeShortcut_def id Let_def)
qed

lemma keys_of_configToSave: "optProp (configToSave s) ''shortcutKeys'' = keysValue (shortcutKeys s)"
  by (simp add: configToSave_def)

lemma load_after_setItem: "loadSavedConfig i (setItem i s w) = configToSave s"
  by (simp add: loadSavedConfig_def setItem_def)

lemma load_shortcuts [simp]: "loadSavedConfig i (w\<lparr>shortcuts := r\<rparr>) = loadSavedConfig i w"
  by (simp add: loadSavedConfig_def)

lemma load_after_reset: "loadSavedConfig i (reset i w) = Null"
  by (simp add: loadSavedConfig_def reset_def)

lemma truthy_keysValue: "truthy (keysValue keys) \<longleftrightarrow> (\<exists>c. keys = Some c \<and> c \<noteq> [])"
  by (cases keys) (simp_all add: keysValue_def)

subsection \<open>No empty chord in the registry\<close>

lemma chordsOK_storage [simp]: "chordsOK (w\<lparr>localStorage := st\<rparr>) = chordsOK w"
  by (simp add: chordsOK_def)

lemma chordsOK_find:
  assumes "chordsOK w" and "findShortcut sid w = Some s"
  shows "shortcutKeys s \<noteq> Some []"
proof -
  from assms(2) have "s \<in> set (shortcuts w)"
    by (auto simp: findShortcut_def getAllShortcuts_def find_Some_iff)
  with assms(1) show ?thesis by (simp add: chordsOK_def list_all_iff)
qed

lemma chordsOK_freshWorld: "chordsOK freshWorld"
  by (simp add: chordsOK_def freshWorld_def)

lemma chordsOK_liveWorld: "chordsOK (liveWorld i keys) \<longleftrightarrow> keys \<noteq> Some []"
  by (simp add: chordsOK_def liveWorld_def registration_def)

lemma shortcutKeysToUse_not_empty:
  "HARDCODED_DEFAULT i \<noteq> Some [] \<Longrightarrow> shortcutKeysToUse i savedConfig \<noteq> Some []"
  by (simp add: shortcutKeysToUse_def convertedOrNull_decode decode_not_empty)

text \<open>
  Startup, every save, the auto-save tick and reset keep the registry free of empty
  chords, and so does a fresh page; the defaults of the four actions are not empty.
\<close>

lemma chordsOK_kept:
  assumes "chordsOK w"
  shows "HARDCODED_DEFAULT i \<noteq> Some [] \<longrightarrow> chordsOK (initializeShortcut i w)"
    and "chordsOK (manualSave i w)"
    and "chordsOK (fst (manualSaveTracked i (w, lastSavedKeys)))"
    and "chordsOK (overrideSave i w)"
    and "chordsOK (fst (autoSaveTick i (w, lastSavedKeys)))"
    and "chordsOK (reset i w)"
proof -
  show "HARDCODED_DEFAULT i \<noteq> Some [] \<longrightarrow> chordsOK (initializeShortcut i w)"
  proof
    assume d: "HARDCODED_DEFAULT i \<noteq> Some []"
    have del: "chordsOK (deleteOldShortcut i savedConfig w)" for savedConfig
      using assms
      by (auto simp: deleteOldShortcut_def deleteShortcut_def chordsOK_def list_all_iff)
    have "chordsOK (tryCreateShortcut (registration i (shortcutKeysToUse i savedConfig)) w')"
      if "chordsOK w'" for w' savedConfig
      using that shortcutKeysToUse_not_empty [OF d, of savedConfig]
      by (auto simp: tryCreateShortcut_def createShortcut_def chordsOK_def list_all_iff
          registration_def)
    with del show "chordsOK (initializeShortcut i w)"
      by (simp add: initializeShortcut_def Let_def)
  qed
  show "chordsOK (manualSave i w)"
    using assms by (simp add: manualSave_def setItem_def split: option.splits)
  show "chordsOK (fst (manualSaveTracked i (w, lastSavedKeys)))"
    using assms by (simp add: manualSaveTracked_def setItem_def split: option.splits)
  show "chordsOK (overrideSave i w)"
    using assms by (simp add: overrideSave_def setItem_def split: option.splits)
  show "chordsOK (fst (autoSaveTick i (w, lastSavedKeys)))"
    using assms by (simp add: autoSaveTick_def setItem_def split: option.splits)
  show "chordsOK (reset i w)"
    using assms by (simp add: reset_def)
qed

lemma defaults_not_empty:
  "HARDCODED_DEFAULT Action1 \<noteq> Some []" "HARDCODED_DEFAULT Action2 \<noteq> Some []"
  "HARDCODED_DEFAULT Action3 \<noteq> Some []" "HARDCODED_DEFAULT Action4 \<noteq> Some []"
  by (simp_all add: Action1_def Action2_def Action3_def Action4_def)

lemma findShortcut_setItem [simp]: "findShortcut sid (setItem i s w) = findShortcut sid w"
  by (simp add: setItem_def)

lemma findShortcut_liveWorld:
  "findShortcut (the_shortcutId i) (liveWorld i keys) = Some (registration i keys)"
  by (simp add: findShortcut_def getAllShortcuts_def liveWorld_def registration_def)

lemma findShortcut_freshWorld: "findShortcut sid freshWorld = None"
  by (simp add: findShortcut_def getAllShortcuts_def freshWorld_def)

section \<open>Startup\<close>

text \<open>
  C3. An action is registered with some chord \<open>c\<close> and is saved, by the manual save
  (Demo Action 1, and the same write for Demo Actions 2 and 4) or by the override save
  (Demo Action 3). At the next startup, on the storage as the save left it and whatever
  registry \<open>r\<close> the host starts with, step 3 chooses the conversion of \<open>c\<close> as the
  chord to register, and the registry then holds the action with exactly that chord. The
  state saved from is any state of the page: one without an empty chord in the registry.
\<close>

theorem save_reload_roundtrip:
  assumes "chordsOK w"
      and "findShortcut (the_shortcutId i) w = Some s"
      and "shortcutKeys s = Some c"
  shows "\<forall>saved \<in> {manualSave i w, fst (manualSaveTracked i (w, lastSavedKeys)), overrideSave i w}.
           shortcutKeysToUse i (loadSavedConfig i saved) = convertNumericShortcutToString (Str c)
           \<and> findShortcut (the_shortcutId i) (initializeShortcut i (saved\<lparr>shortcuts := r\<rparr>))
               = Some (registration i (convertNumericShortcutToString (Str c)))"
proof -
  from chordsOK_find [OF assms(1,2)] assms(3) have c: "c \<noteq> []" by auto
  have same: "manualSave i w = setItem i s w"
    "fst (manualSaveTracked i (w, lastSavedKeys)) = setItem i s w"
    "overrideSave i w = setItem i s w"
    using assms(2,3) c
    by (simp_all add: manualSave_def manualSaveTracked_def overrideSave_def keysValue_def)
  have k: "optProp (configToSave s) ''shortcutKeys'' = Str c"
    using assms(3) by (simp add: keys_of_configToSave keysValue_def)
  have use: "shortcutKeysToUse i (loadSavedConfig i (setItem i s w)) = convertNumericShortcutToString (Str c)"
    using c by (simp add: load_after_setItem shortcutKeysToUse_def k convertedOrNull_decode)
  have "truthy (optProp (loadSavedConfig i ((setItem i s w)\<lparr>shortcuts := r\<rparr>)) ''shortcutKeys'')"
    using c by (simp add: load_after_setItem k)
  then have "findShortcut (the_shortcutId i) (initializeShortcut i ((setItem i s w)\<lparr>shortcuts := r\<rparr>))
      = Some (registration i (shortcutKeysToUse i (loadSavedConfig i ((setItem i s w)\<lparr>shortcuts := r\<rparr>))))"
    by (intro registered_after_startup) simp
  then have reg: "findShortcut (the_shortcutId i) (initializeShortcut i ((setItem i s w)\<lparr>shortcuts := r\<rparr>))
      = Some (registration i (convertNumericShortcutToString (Str c)))"
    by (simp add: use)
  from use reg show ?thesis by (simp add: same)
qed

theorem save_reload_roundtrip_witness:
  "chordsOK (liveWorld Action1 (Some ''4,56''))
   \<and> findShortcut (the_shortcutId Action1) (liveWorld Action1 (Some ''4,56''))
       = Some (registration Action1 (Some ''4,56''))
   \<and> shortcutKeys (registration Action1 (Some ''4,56'')) = Some ''4,56''
   \<and> shortcutKeysToUse Action1 (loadSavedConfig Action1 (saveDemoShortcut1 (liveWorld Action1 (Some ''4,56''))))
       = Some ''A+8''
   \<and> findShortcut (the_shortcutId Action1)
       (initializeShortcut1 ((saveDemoShortcut1 (liveWorld Action1 (Some ''4,56'')))\<lparr>shortcuts := []\<rparr>))
       = Some (registration Action1 (Some ''A+8''))
   \<and> chordsOK (liveWorld Action3 (Some ''4,56''))
   \<and> findShortcut (the_shortcutId Action3) (liveWorld Action3 (Some ''4,56''))
       = Some (registration Action3 (Some ''4,56''))
   \<and> shortcutKeysToUse Action3 (loadSavedConfig Action3 (saveDemoShortcut3 (liveWorld Action3 (Some ''4,56''))))
       = Some ''A+8''
   \<and> findShortcut (the_shortcutId Action3)
       (initializeShortcut3 ((saveDemoShortcut3 (liveWorld Action3 (Some ''4,56'')))\<lparr>shortcuts := []\<rparr>))
       = Some (registration Action3 (Some ''A+8''))"
proof -
  have ok1: "chordsOK (liveWorld Action1 (Some ''4,56''))"
    and ok3: "chordsOK (liveWorld Action3 (Some ''4,56''))"
    by (simp_all add: chordsOK_liveWorld)
  have f1: "findShortcut (the_shortcutId Action1) (liveWorld Action1 (Some ''4,56''))
      = Some (registration Action1 (Some ''4,56''))"
    and f3: "findShortcut (the_shortcutId Action3) (liveWorld Action3 (Some ''4,56''))
      = Some (registration Action3 (Some ''4,56''))"
    by (simp_all add: findShortcut_def getAllShortcuts_def liveWorld_def registration_def)
  have k1: "shortcutKeys (registration Action1 (Some ''4,56'')) = Some ''4,56''"
    and k3: "shortcutKeys (registration Action3 (Some ''4,56'')) = Some ''4,56''"
    by (simp_all add: registration_def)
  show ?thesis
    using ok1 ok3 f1 f3 k1
      save_reload_roundtrip [OF ok1 f1 k1, of Null "[]"]
      save_reload_roundtrip [OF ok3 f3 k3, of Null "[]"]
    by (simp add: decode_4_56 saveDemoShortcut1_def initializeShortcut1_def
        saveDemoShortcut3_def initializeShortcut3_def)
qed

text \<open>
  C4, as amended. The chord that startup registers is the conversion of the persisted
  chord when the stored record has a truthy \<^verbatim>\<open>shortcutKeys\<close> (not \<^verbatim>\<open>null\<close> and not
  the empty string): the converted chord if the conversion succeeds, and no chord, not
  the default, if it returns \<^verbatim>\<open>null\<close>. In every other case (no record, an unreadable
  one, \<^verbatim>\<open>shortcutKeys\<close> missing, \<^verbatim>\<open>null\<close> or empty) it is the hardcoded default
  where one is configured and no chord where none is. After a reset it is therefore the
  default or no chord. The registry holds the action with that chord once startup is
  through, provided the registration can be made.
\<close>

theorem startup_chord_selection:
  "(truthy (optProp (loadSavedConfig i w) ''shortcutKeys'') \<longrightarrow>
      shortcutKeysToUse i (loadSavedConfig i w)
        = convertNumericShortcutToString (optProp (loadSavedConfig i w) ''shortcutKeys''))
   \<and> (\<not> truthy (optProp (loadSavedConfig i w) ''shortcutKeys'') \<longrightarrow>
      shortcutKeysToUse i (loadSavedConfig i w) = HARDCODED_DEFAULT i)
   \<and> shortcutKeysToUse i (loadSavedConfig i (reset i w)) = HARDCODED_DEFAULT i
   \<and> (truthy (optProp (loadSavedConfig i w) ''shortcutKeys'') \<or> findShortcut (the_shortcutId i) w = None \<longrightarrow>
      findShortcut (the_shortcutId i) (initializeShortcut i w)
        = Some (registration i (shortcutKeysToUse i (loadSavedConfig i w))))"
proof -
  have "shortcutKeysToUse i (loadSavedConfig i (reset i w)) = HARDCODED_DEFAULT i"
    by (simp add: load_after_reset shortcutKeysToUse_def)
  then show ?thesis
    using registered_after_startup [of i w]
    by (simp add: shortcutKeysToUse_def convertedOrNull_decode)
qed

lemma decode_zz: "convertNumericShortcutToString (Str ''zz'') = None"
  by code_simp

theorem startup_chord_selection_witness:
  "truthy (optProp (loadSavedConfig Action2 (storedWorld Action2 (Str ''4,56''))) ''shortcutKeys'')
   \<and> shortcutKeysToUse Action2 (loadSavedConfig Action2 (storedWorld Action2 (Str ''4,56''))) = Some ''A+8''
   \<and> findShortcut (the_shortcutId Action2) (initializeShortcut Action2 (storedWorld Action2 (Str ''4,56'')))
       = Some (registration Action2 (Some ''A+8''))
   \<and> truthy (optProp (loadSavedConfig Action2 (storedWorld Action2 (Str ''zz''))) ''shortcutKeys'')
   \<and> shortcutKeysToUse Action2 (loadSavedConfig Action2 (storedWorld Action2 (Str ''zz''))) = None
   \<and> \<not> truthy (optProp (loadSavedConfig Action2 freshWorld) ''shortcutKeys'')
   \<and> shortcutKeysToUse Action2 (loadSavedConfig Action2 freshWorld) = Some ''A+2''
   \<and> shortcutKeysToUse Action2 (loadSavedConfig Action2 (reset Action2 (storedWorld Action2 (Str ''4,56''))))
       = Some ''A+2''"
proof -
  have k1: "optProp (loadSavedConfig Action2 (storedWorld Action2 (Str ''4,56''))) ''shortcutKeys'' = Str ''4,56''"
    by (simp add: loadSavedConfig_def storedWorld_def)
  have k2: "optProp (loadSavedConfig Action2 (storedWorld Action2 (Str ''zz''))) ''shortcutKeys'' = Str ''zz''"
    by (simp add: loadSavedConfig_def storedWorld_def)
  have k3: "optProp (loadSavedConfig Action2 freshWorld) ''shortcutKeys'' = Undefined"
    by (simp add: loadSavedConfig_def freshWorld_def)
  have d: "HARDCODED_DEFAULT Action2 = Some ''A+2''"
    by (simp add: Action2_def)
  show ?thesis
    using startup_chord_selection [of Action2 "storedWorld Action2 (Str ''4,56'')"]
      startup_chord_selection [of Action2 "storedWorld Action2 (Str ''zz'')"]
      startup_chord_selection [of Action2 freshWorld]
    by (simp add: k1 k2 k3 d decode_4_56 decode_zz)
qed

text \<open>
  The claim as it was stated fails on a stored record whose \<^verbatim>\<open>shortcutKeys\<close> is the
  empty string: it is not \<^verbatim>\<open>null\<close> and its conversion returns \<^verbatim>\<open>null\<close>, yet Demo
  Action 2 starts with its default \<open>A+2\<close> and not without a chord.
\<close>

theorem startup_default_on_empty_keys:
  "optProp (loadSavedConfig Action2 (storedWorld Action2 (Str ''''))) ''shortcutKeys'' = Str ''''
   \<and> Str '''' \<noteq> Null
   \<and> convertNumericShortcutToString (Str '''') = None
   \<and> shortcutKeysToUse Action2 (loadSavedConfig Action2 (storedWorld Action2 (Str ''''))) = Some ''A+2''"
  by (simp add: loadSavedConfig_def storedWorld_def shortcutKeysToUse_def Action2_def
      convertNumericShortcutToString_def)

section \<open>Save, auto-save and reset\<close>

text \<open>
  C8. A save without a live registration of the action's id leaves everything as it is.
  Otherwise the manual save (Demo Action 1; for Demo Actions 2 and 4 the same write)
  overwrites the storage key with the record of the live registration's id, name,
  description and chord, and changes nothing else. The override save (Demo Action 3), and
  only it, also leaves everything as it is when the live chord is \<^verbatim>\<open>null\<close>, and
  writes what the manual save writes otherwise. The state is any state of the page: one
  without an empty chord in the registry.
\<close>

theorem save_semantics:
  assumes "chordsOK w"
  shows
  "(findShortcut (the_shortcutId i) w = None \<longrightarrow>
      manualSave i w = w \<and> overrideSave i w = w
      \<and> manualSaveTracked i (w, lastSavedKeys) = (w, lastSavedKeys))
   \<and> (findShortcut (the_shortcutId i) w = Some s \<longrightarrow>
      localStorage (manualSave i w)
        = (localStorage w)(storageKey i \<mapsto>
            Text (Obj [(''shortcutId'', Str (shortcutId s)),
                       (''name'', Str (name s)),
                       (''description'', Str (description s)),
                       (''shortcutKeys'', (case shortcutKeys s of None \<Rightarrow> Null | Some c \<Rightarrow> Str c))]))
      \<and> shortcuts (manualSave i w) = shortcuts w
      \<and> fst (manualSaveTracked i (w, lastSavedKeys)) = manualSave i w
      \<and> (shortcutKeys s = None \<longrightarrow> overrideSave i w = w)
      \<and> (shortcutKeys s \<noteq> None \<longrightarrow> overrideSave i w = manualSave i w))"
proof (cases "findShortcut (the_shortcutId i) w")
  case None
  then show ?thesis
    by (simp add: manualSave_def overrideSave_def manualSaveTracked_def)
next
  case (Some t)
  from chordsOK_find [OF assms Some] have "shortcutKeys t \<noteq> Some []" .
  with Some show ?thesis
    by (auto simp: manualSave_def overrideSave_def manualSaveTracked_def setItem_def
        configToSave_def keysValue_def)
qed

theorem save_semantics_witness:
  "chordsOK freshWorld
   \<and> findShortcut (the_shortcutId Action3) freshWorld = None
   \<and> saveDemoShortcut1 freshWorld = freshWorld \<and> saveDemoShortcut3 freshWorld = freshWorld
   \<and> chordsOK (liveWorld Action3 None)
   \<and> findShortcut (the_shortcutId Action3) (liveWorld Action3 None) = Some (registration Action3 None)
   \<and> shortcutKeys (registration Action3 None) = None
   \<and> saveDemoShortcut3 (liveWorld Action3 None) = liveWorld Action3 None
   \<and> chordsOK (liveWorld Action3 (Some ''4,56''))
   \<and> findShortcut (the_shortcutId Action3) (liveWorld Action3 (Some ''4,56''))
       = Some (registration Action3 (Some ''4,56''))
   \<and> shortcutKeys (registration Action3 (Some ''4,56'')) \<noteq> None
   \<and> localStorage (saveDemoShortcut3 (liveWorld Action3 (Some ''4,56''))) (storageKey Action3)
       = Some (Text (Obj [(''shortcutId'', Str ''WMEShortcutDemo_Action3''),
                          (''name'', Str ''Demo Action 3''),
                          (''description'', Str (the_description Action3)),
                          (''shortcutKeys'', Str ''4,56'')]))"
proof -
  have okf: "chordsOK freshWorld" by (rule chordsOK_freshWorld)
  have okn: "chordsOK (liveWorld Action3 None)"
    and okc: "chordsOK (liveWorld Action3 (Some ''4,56''))"
    by (simp_all add: chordsOK_liveWorld)
  have f1: "findShortcut (the_shortcutId Action1) freshWorld = None"
    and f3: "findShortcut (the_shortcutId Action3) freshWorld = None"
    by (rule findShortcut_freshWorld)+
  have n: "findShortcut (the_shortcutId Action3) (liveWorld Action3 None) = Some (registration Action3 None)"
    and c: "findShortcut (the_shortcutId Action3) (liveWorld Action3 (Some ''4,56''))
        = Some (registration Action3 (Some ''4,56''))"
    by (rule findShortcut_liveWorld)+
  have a: "saveDemoShortcut1 freshWorld = freshWorld"
    using save_semantics [OF okf, where i = Action1] f1 by (simp add: saveDemoShortcut1_def)
  have b: "saveDemoShortcut3 freshWorld = freshWorld"
    using save_semantics [OF okf, where i = Action3] f3 by (simp add: saveDemoShortcut3_def)
  have d: "saveDemoShortcut3 (liveWorld Action3 None) = liveWorld Action3 None"
    using save_semantics [OF okn, where i = Action3 and s = "registration Action3 None"] n
    by (simp add: saveDemoShortcut3_def registration_def)
  have e: "localStorage (saveDemoShortcut3 (liveWorld Action3 (Some ''4,56''))) (storageKey Action3)
       = Some (Text (Obj [(''shortcutId'', Str ''WMEShortcutDemo_Action3''),
                          (''name'', Str ''Demo Action 3''),
                          (''description'', Str (the_description Action3)),
                          (''shortcutKeys'', Str ''4,56'')]))"
    using save_semantics [OF okc, where i = Action3
        and s = "registration Action3 (Some ''4,56'')"] c
    by (simp add: saveDemoShortcut3_def registration_def Action3_def)
  show ?thesis
    using okf okn okc f3 n c a b d e by (simp add: registration_def)
qed

text \<open>
  C7. One tick of the auto-save timer: if the action is registered with a chord that is
  not \<^verbatim>\<open>null\<close> and differs from \<^verbatim>\<open>lastSavedKeys\<close>, the tick leaves the storage and
  the registry exactly as the manual save would and sets \<^verbatim>\<open>lastSavedKeys\<close> to the live
  chord. In every other case (no registration, chord \<^verbatim>\<open>null\<close>, chord equal to
  \<^verbatim>\<open>lastSavedKeys\<close>) it changes nothing. A second tick right after the first changes
  nothing either. The state is any state of the page: one without an empty chord in the
  registry.
\<close>

theorem auto_save_tick:
  assumes "chordsOK w"
  shows
  "(findShortcut (the_shortcutId i) w = Some s \<and> shortcutKeys s = Some c
      \<and> Str c \<noteq> lastSavedKeys \<longrightarrow>
      autoSaveTick i (w, lastSavedKeys) = (manualSave i w, Str c))
   \<and> (findShortcut (the_shortcutId i) w = None
       \<or> (findShortcut (the_shortcutId i) w = Some s
           \<and> (shortcutKeys s = None \<or> keysValue (shortcutKeys s) = lastSavedKeys)) \<longrightarrow>
      autoSaveTick i (w, lastSavedKeys) = (w, lastSavedKeys))
   \<and> autoSaveTick i (autoSaveTick i (w, lastSavedKeys)) = autoSaveTick i (w, lastSavedKeys)"
proof -
  have writes: "autoSaveTick i (w, lastSavedKeys) = (manualSave i w, Str c)"
    if "findShortcut (the_shortcutId i) w = Some s" "shortcutKeys s = Some c"
      "Str c \<noteq> lastSavedKeys"
  proof -
    from chordsOK_find [OF assms that(1)] that(2) have "c \<noteq> []" by auto
    with that show ?thesis
      by (simp add: autoSaveTick_def manualSave_def keysValue_def)
  qed
  have skips: "autoSaveTick i (w, lastSavedKeys) = (w, lastSavedKeys)"
    if "findShortcut (the_shortcutId i) w = None
       \<or> (findShortcut (the_shortcutId i) w = Some s
           \<and> (shortcutKeys s = None \<or> keysValue (shortcutKeys s) = lastSavedKeys))"
    using that by (auto simp: autoSaveTick_def keysValue_def)
  have again: "autoSaveTick i (autoSaveTick i (w, lastSavedKeys)) = autoSaveTick i (w, lastSavedKeys)"
  proof (cases "findShortcut (the_shortcutId i) w")
    case None
    then show ?thesis by (simp add: autoSaveTick_def)
  next
    case (Some t)
    then show ?thesis by (simp add: autoSaveTick_def)
  qed
  from writes skips again show ?thesis by blast
qed

theorem auto_save_tick_witness:
  "chordsOK (liveWorld Action2 (Some ''4,56''))
   \<and> findShortcut (the_shortcutId Action2) (liveWorld Action2 (Some ''4,56''))
       = Some (registration Action2 (Some ''4,56''))
   \<and> shortcutKeys (registration Action2 (Some ''4,56'')) = Some ''4,56''
   \<and> Str ''4,56'' \<noteq> Null
   \<and> autoSave2 (liveWorld Action2 (Some ''4,56''), Null)
       = (fst (saveDemoShortcut2 (liveWorld Action2 (Some ''4,56''), Null)), Str ''4,56'')
   \<and> chordsOK freshWorld
   \<and> findShortcut (the_shortcutId Action2) freshWorld = None
   \<and> autoSave2 (freshWorld, Null) = (freshWorld, Null)
   \<and> autoSave2 (autoSave2 (liveWorld Action2 (Some ''4,56''), Null))
       = autoSave2 (liveWorld Action2 (Some ''4,56''), Null)"
proof -
  have okl: "chordsOK (liveWorld Action2 (Some ''4,56''))" by (simp add: chordsOK_liveWorld)
  have okf: "chordsOK freshWorld" by (rule chordsOK_freshWorld)
  have f: "findShortcut (the_shortcutId Action2) (liveWorld Action2 (Some ''4,56''))
      = Some (registration Action2 (Some ''4,56''))"
    by (rule findShortcut_liveWorld)
  have k: "shortcutKeys (registration Action2 (Some ''4,56'')) = Some ''4,56''"
    by (simp add: registration_def)
  have n: "findShortcut (the_shortcutId Action2) freshWorld = None"
    by (rule findShortcut_freshWorld)
  have s: "fst (saveDemoShortcut2 (liveWorld Action2 (Some ''4,56''), Null))
      = manualSave Action2 (liveWorld Action2 (Some ''4,56''))"
    by (simp add: saveDemoShortcut2_def manualSaveTracked_def manualSave_def f)
  have a: "autoSave2 (liveWorld Action2 (Some ''4,56''), Null)
      = (manualSave Action2 (liveWorld Action2 (Some ''4,56'')), Str ''4,56'')"
    using auto_save_tick [OF okl, where i = Action2
        and s = "registration Action2 (Some ''4,56'')" and c = "''4,56''" and lastSavedKeys = Null] f k
    by (simp add: autoSave2_def)
  have b: "autoSave2 (freshWorld, Null) = (freshWorld, Null)"
    using auto_save_tick [OF okf, where i = Action2 and lastSavedKeys = Null] n
    by (simp add: autoSave2_def)
  have c: "autoSave2 (autoSave2 (liveWorld Action2 (Some ''4,56''), Null))
       = autoSave2 (liveWorld Action2 (Some ''4,56''), Null)"
    using auto_save_tick [OF okl, where i = Action2 and lastSavedKeys = Null]
    by (simp add: autoSave2_def)
  show ?thesis
    using okl okf f k n a b c by (simp add: s)
qed

text \<open>
  C6, as amended. The auto-save tick and the override save never write a record whose
  \<^verbatim>\<open>shortcutKeys\<close> is \<^verbatim>\<open>null\<close>, and a reset writes nothing: where no stored record had
  \<^verbatim>\<open>null\<close> for \<^verbatim>\<open>shortcutKeys\<close> before one of them, none has after it, and whatever
  a tick or an override save changes in the storage is a record with a non-empty chord.
  (The manual save writes the live chord as it is, \<^verbatim>\<open>null\<close> included.)
\<close>

theorem guarded_writes_keep_keys:
  assumes "\<not> nullKeysStored w k"
  shows "\<not> nullKeysStored (fst (autoSaveTick i (w, lastSavedKeys))) k
     \<and> \<not> nullKeysStored (overrideSave i w) k
     \<and> \<not> nullKeysStored (reset i w) k
     \<and> (localStorage (fst (autoSaveTick i (w, lastSavedKeys))) k \<noteq> localStorage w k \<longrightarrow>
          (\<exists>v c. localStorage (fst (autoSaveTick i (w, lastSavedKeys))) k = Some (Text v)
             \<and> optProp v ''shortcutKeys'' = Str c \<and> c \<noteq> []))
     \<and> (localStorage (overrideSave i w) k \<noteq> localStorage w k \<longrightarrow>
          (\<exists>v c. localStorage (overrideSave i w) k = Some (Text v)
             \<and> optProp v ''shortcutKeys'' = Str c \<and> c \<noteq> []))"
proof -
  have put: "\<not> nullKeysStored (setItem i s w) k
      \<and> (localStorage (setItem i s w) k \<noteq> localStorage w k \<longrightarrow>
          (\<exists>v c. localStorage (setItem i s w) k = Some (Text v)
             \<and> optProp v ''shortcutKeys'' = Str c \<and> c \<noteq> []))"
    if "truthy (keysValue (shortcutKeys s))" for s
  proof -
    from that obtain c where c: "shortcutKeys s = Some c" "c \<noteq> []"
      by (auto simp: truthy_keysValue)
    then have "optProp (configToSave s) ''shortcutKeys'' = Str c"
      by (simp add: keys_of_configToSave keysValue_def)
    with c assms show ?thesis
      by (auto simp: nullKeysStored_def setItem_def)
  qed
  have tick: "fst (autoSaveTick i (w, lastSavedKeys)) = w
      \<or> (\<exists>s. truthy (keysValue (shortcutKeys s)) \<and> fst (autoSaveTick i (w, lastSavedKeys)) = setItem i s w)"
    by (cases "findShortcut (the_shortcutId i) w") (auto simp: autoSaveTick_def)
  have over: "overrideSave i w = w
      \<or> (\<exists>s. truthy (keysValue (shortcutKeys s)) \<and> overrideSave i w = setItem i s w)"
    by (cases "findShortcut (the_shortcutId i) w") (auto simp: overrideSave_def)
  have rst: "\<not> nullKeysStored (reset i w) k"
    using assms by (auto simp: nullKeysStored_def reset_def)
  from tick have t: "\<not> nullKeysStored (fst (autoSaveTick i (w, lastSavedKeys))) k
     \<and> (localStorage (fst (autoSaveTick i (w, lastSavedKeys))) k \<noteq> localStorage w k \<longrightarrow>
          (\<exists>v c. localStorage (fst (autoSaveTick i (w, lastSavedKeys))) k = Some (Text v)
             \<and> optProp v ''shortcutKeys'' = Str c \<and> c \<noteq> []))"
    using put assms by (elim disjE exE conjE) simp_all
  from over have o: "\<not> nullKeysStored (overrideSave i w) k
     \<and> (localStorage (overrideSave i w) k \<noteq> localStorage w k \<longrightarrow>
          (\<exists>v c. localStorage (overrideSave i w) k = Some (Text v)
             \<and> optProp v ''shortcutKeys'' = Str c \<and> c \<noteq> []))"
    using put assms by (elim disjE exE conjE) simp_all
  from t o rst show ?thesis by blast
qed

theorem guarded_writes_keep_keys_witness:
  "\<not> nullKeysStored (liveWorld Action2 (Some ''4,56'')) (storageKey Action2)
   \<and> \<not> nullKeysStored (fst (autoSave2 (liveWorld Action2 (Some ''4,56''), Null))) (storageKey Action2)
   \<and> localStorage (fst (autoSave2 (liveWorld Action2 (Some ''4,56''), Null))) (storageKey Action2)
       \<noteq> localStorage (liveWorld Action2 (Some ''4,56'')) (storageKey Action2)
   \<and> (\<exists>v c. localStorage (fst (autoSave2 (liveWorld Action2 (Some ''4,56''), Null))) (storageKey Action2)
               = Some (Text v)
          \<and> optProp v ''shortcutKeys'' = Str c \<and> c \<noteq> [])"
proof -
  have h: "\<not> nullKeysStored (liveWorld Action2 (Some ''4,56'')) (storageKey Action2)"
    by (simp add: nullKeysStored_def liveWorld_def)
  have d: "localStorage (fst (autoSave2 (liveWorld Action2 (Some ''4,56''), Null))) (storageKey Action2)
       \<noteq> localStorage (liveWorld Action2 (Some ''4,56'')) (storageKey Action2)"
    by (simp add: autoSave2_def autoSaveTick_def findShortcut_liveWorld)
       (simp add: registration_def keysValue_def setItem_def liveWorld_def)
  show ?thesis
    using h d guarded_writes_keep_keys [OF h, of Action2 Null]
    by (simp add: autoSave2_def)
qed

text \<open>
  The claim as it was stated fails: on a fresh page Demo Action 1 is registered without a
  chord, and \<^verbatim>\<open>saveDemoShortcut1\<close> then stores a record whose \<^verbatim>\<open>shortcutKeys\<close> is
  \<^verbatim>\<open>null\<close>.
\<close>

theorem manual_save_writes_null_keys:
  "nullKeysStored (saveDemoShortcut1 (initializeShortcut1 freshWorld)) (storageKey Action1)"
  by (simp add: initializeShortcut1_def initializeShortcut_def loadSavedConfig_def freshWorld_def
      deleteOldShortcut_def shortcutKeysToUse_def tryCreateShortcut_def createShortcut_def
      registration_def saveDemoShortcut1_def manualSave_def findShortcut_def getAllShortcuts_def
      setItem_def configToSave_def keysValue_def nullKeysStored_def Action1_def)

text \<open>
  C9. A reset removes the value under the action's storage key and changes nothing else:
  the registry and every other storage key are as before. On a storage without the key it
  changes nothing at all, so a second reset has no further effect. The four actions own
  four different keys, so a reset of one leaves the records of the others alone.
\<close>

theorem reset_frame:
  "localStorage (reset i w) (storageKey i) = None
   \<and> (\<forall>k. k \<noteq> storageKey i \<longrightarrow> localStorage (reset i w) k = localStorage w k)
   \<and> shortcuts (reset i w) = shortcuts w
   \<and> (localStorage w (storageKey i) = None \<longrightarrow> reset i w = w)
   \<and> reset i (reset i w) = reset i w
   \<and> distinct (map storageKey [Action1, Action2, Action3, Action4])"
proof -
  have "reset i w = w" if "localStorage w (storageKey i) = None"
  proof -
    from that have "(localStorage w)(storageKey i := None) = localStorage w"
      by (simp add: fun_upd_idem)
    then show ?thesis by (simp add: reset_def)
  qed
  moreover have "distinct (map storageKey [Action1, Action2, Action3, Action4])"
    by (simp add: Action1_def Action2_def Action3_def Action4_def)
  ultimately show ?thesis by (simp add: reset_def)
qed

theorem reset_frame_witness:
  "storageKey Action2 \<noteq> storageKey Action1
   \<and> localStorage (resetDemoShortcut1 (storedWorld Action2 (Str ''4,56''))) (storageKey Action2)
       = localStorage (storedWorld Action2 (Str ''4,56'')) (storageKey Action2)
   \<and> localStorage (storedWorld Action2 (Str ''4,56'')) (storageKey Action1) = None
   \<and> resetDemoShortcut1 (storedWorld Action2 (Str ''4,56'')) = storedWorld Action2 (Str ''4,56'')
   \<and> localStorage (resetDemoShortcut2 (storedWorld Action2 (Str ''4,56''))) (storageKey Action2) = None"
proof -
  have ne: "storageKey Action2 \<noteq> storageKey Action1"
    by (simp add: Action1_def Action2_def)
  have ab: "localStorage (storedWorld Action2 (Str ''4,56'')) (storageKey Action1) = None"
    using ne by (simp add: storedWorld_def)
  show ?thesis
    using ne ab reset_frame [of Action1 "storedWorld Action2 (Str ''4,56'')"]
      reset_frame [of Action2 "storedWorld Action2 (Str ''4,56'')"]
    by (simp add: resetDemoShortcut1_def resetDemoShortcut2_def)
qed

end
